theory Spec2Isabelle
  imports Complex_Main
begin

section \<open>JavaScript values used by the hooks and the sentiment client\<close>

text \<open>
  Strings are \<open>string\<close>; a \<open>char\<close> stands for one UTF-16 code unit below 256, so
  \<open>length\<close> is the JavaScript \<open>length\<close> on such texts. Times are milliseconds as \<open>int\<close>
  (\<open>Date.getTime()\<close>). A JavaScript number that the code computes with is a double, an
  infinity or \<open>NaN\<close>; the confidence of a recognition result, which is only stored and
  compared with a setting, is a real.
\<close>

datatype jsnum = Num real | PosInf | NegInf | NaN

subsection \<open>Double precision\<close>

text \<open>
  A JavaScript number is an IEEE 754 double. \<open>Num r\<close> stands for the double nearest to \<open>r\<close>
  (for \<open>r\<close> itself when it is a double), so that a decimal literal of the source can be
  written as it is. Every arithmetic operation rounds its operands to doubles, computes
  the exact result and rounds again, to nearest with ties to even, as the hardware does.
  The sign of zero is not modelled.
\<close>

text \<open>The integer nearest to \<open>q\<close>, the even one of the two when \<open>q\<close> is half-way.\<close>

definition round_even :: "real \<Rightarrow> int" where
  "round_even q =
     (let f = \<lfloor>q\<rfloor>
      in if q - of_int f < 1 / 2 then f
         else if 1 / 2 < q - of_int f then f + 1
         else if even f then f else f + 1)"

text \<open>
  The binary exponent of a magnitude: the largest \<open>e\<close> from -1022 to 1023 with
  \<open>2 powi e\<close> at most the magnitude, and -1022 for the subnormal magnitudes below.
\<close>

fun exponent_from :: "nat \<Rightarrow> real \<Rightarrow> int" where
  "exponent_from 0 a = - 1022"
| "exponent_from (Suc n) a =
     (if 2 powi (int (Suc n) - 1022) \<le> a then int (Suc n) - 1022 else exponent_from n a)"

definition exponent :: "real \<Rightarrow> int" where
  "exponent a = exponent_from 2045 a"

text \<open>
  Rounding to a double: 53 significant bits at the exponent of the magnitude, and an
  infinity when the rounded magnitude reaches \<open>2 powi 1024\<close>.
\<close>

definition fl :: "real \<Rightarrow> jsnum" where
  "fl x =
     (let ulp = 2 powi (exponent \<bar>x\<bar> - 52);
          r = of_int (round_even (x / ulp)) * ulp
      in if 2 powi 1024 \<le> \<bar>r\<bar> then (if 0 < x then PosInf else NegInf) else Num r)"

fun as_double :: "jsnum \<Rightarrow> jsnum" where
  "as_double (Num a) = fl a"
| "as_double PosInf = PosInf"
| "as_double NegInf = NegInf"
| "as_double NaN = NaN"

text \<open>The operations on operands that are doubles already.\<close>

fun add_doubles :: "jsnum \<Rightarrow> jsnum \<Rightarrow> jsnum" where
  "add_doubles (Num a) (Num b) = fl (a + b)"
| "add_doubles NaN y = NaN"
| "add_doubles x NaN = NaN"
| "add_doubles PosInf NegInf = NaN"
| "add_doubles NegInf PosInf = NaN"
| "add_doubles PosInf y = PosInf"
| "add_doubles x PosInf = PosInf"
| "add_doubles NegInf y = NegInf"
| "add_doubles x NegInf = NegInf"

fun negate :: "jsnum \<Rightarrow> jsnum" where
  "negate (Num a) = Num (- a)"
| "negate PosInf = NegInf"
| "negate NegInf = PosInf"
| "negate NaN = NaN"

text \<open>Division by an array length, which is a whole number and a double as it is.\<close>

fun div_length :: "jsnum \<Rightarrow> nat \<Rightarrow> jsnum" where
  "div_length (Num a) n =
     (if n = 0 then (if a = 0 then NaN else if 0 < a then PosInf else NegInf)
      else fl (a / real n))"
| "div_length PosInf n = PosInf"
| "div_length NegInf n = NegInf"
| "div_length NaN n = NaN"

fun abs_double :: "jsnum \<Rightarrow> jsnum" where
  "abs_double (Num a) = Num \<bar>a\<bar>"
| "abs_double PosInf = PosInf"
| "abs_double NegInf = PosInf"
| "abs_double NaN = NaN"

text \<open>Every comparison with \<open>NaN\<close> is false.\<close>

fun gt_doubles :: "jsnum \<Rightarrow> jsnum \<Rightarrow> bool" where
  "gt_doubles (Num a) (Num b) = (b < a)"
| "gt_doubles NaN y = False"
| "gt_doubles x NaN = False"
| "gt_doubles NegInf y = False"
| "gt_doubles x NegInf = True"
| "gt_doubles x PosInf = False"
| "gt_doubles PosInf y = True"

text \<open>\<open>a + b\<close>, \<open>a - b\<close>, \<open>a / xs.length\<close>, \<open>Math.abs(a)\<close>, \<open>a > b\<close>\<close>

definition js_add :: "jsnum \<Rightarrow> jsnum \<Rightarrow> jsnum" where
  "js_add x y = add_doubles (as_double x) (as_double y)"

definition js_sub :: "jsnum \<Rightarrow> jsnum \<Rightarrow> jsnum" where
  "js_sub x y = add_doubles (as_double x) (negate (as_double y))"

definition js_div_length :: "jsnum \<Rightarrow> nat \<Rightarrow> jsnum" where
  "js_div_length x n = div_length (as_double x) n"

definition Math_abs :: "jsnum \<Rightarrow> jsnum" where
  "Math_abs x = abs_double (as_double x)"

definition js_gt :: "jsnum \<Rightarrow> jsnum \<Rightarrow> bool" where
  "js_gt x y = gt_doubles (as_double x) (as_double y)"

text \<open>\<open>Math.min\<close> and \<open>Math.max\<close> of two numbers; they select an operand and do not round.\<close>

fun Math_min :: "jsnum \<Rightarrow> jsnum \<Rightarrow> jsnum" where
  "Math_min (Num a) (Num b) = Num (min a b)"
| "Math_min NaN y = NaN"
| "Math_min x NaN = NaN"
| "Math_min NegInf y = NegInf"
| "Math_min x NegInf = NegInf"
| "Math_min PosInf y = y"
| "Math_min x PosInf = x"

fun Math_max :: "jsnum \<Rightarrow> jsnum \<Rightarrow> jsnum" where
  "Math_max (Num a) (Num b) = Num (max a b)"
| "Math_max NaN y = NaN"
| "Math_max x NaN = NaN"
| "Math_max PosInf y = PosInf"
| "Math_max x PosInf = PosInf"
| "Math_max NegInf y = y"
| "Math_max x NegInf = x"

text \<open>\<open>xs.slice(-n)\<close>: the last \<open>n\<close> elements, the whole array when it is shorter.\<close>

definition slice_last :: "nat \<Rightarrow> 'a list \<Rightarrow> 'a list" where
  "slice_last n xs = drop (length xs - n) xs"

text \<open>\<open>toLowerCase\<close> on code units below 256: A-Z and the Latin-1 capitals move up by 32.\<close>

definition toLowerCase_char :: "char \<Rightarrow> char" where
  "toLowerCase_char c = (let n = (of_char c :: nat) in
     if (65 \<le> n \<and> n \<le> 90) \<or> (192 \<le> n \<and> n \<le> 222 \<and> n \<noteq> 215)
     then char_of (n + 32) else c)"

definition toLowerCase :: "string \<Rightarrow> string" where
  "toLowerCase s = map toLowerCase_char s"

definition startsWith :: "string \<Rightarrow> string \<Rightarrow> bool" where
  "startsWith s w = (take (length w) s = w)"

text \<open>\<open>s.includes(w)\<close>: \<open>w\<close> occurs in \<open>s\<close> as a contiguous substring.\<close>

fun includes_str :: "string \<Rightarrow> string \<Rightarrow> bool" where
  "includes_str [] w = (w = [])"
| "includes_str (c # cs) w = (startsWith (c # cs) w \<or> includes_str cs w)"

text \<open>A value as \<open>JSON.parse\<close> builds it, with \<open>undefined\<close> for a missing property.\<close>

datatype jsval =
    JUndefined
  | JNull
  | JBool bool
  | JNumber real
  | JString string
  | JArray "jsval list"
  | JObject "(string \<times> jsval) list"

text \<open>Truthiness, as \<open>||\<close> and \<open>!\<close> test it.\<close>

fun truthy :: "jsval \<Rightarrow> bool" where
  "truthy JUndefined = False"
| "truthy JNull = False"
| "truthy (JBool b) = b"
| "truthy (JNumber r) = (r \<noteq> 0)"
| "truthy (JString s) = (s \<noteq> [])"
| "truthy (JArray _) = True"
| "truthy (JObject _) = True"

text \<open>\<open>a || b\<close>\<close>

definition js_or :: "jsval \<Rightarrow> jsval \<Rightarrow> jsval" where
  "js_or a b = (if truthy a then a else b)"

text \<open>
  \<open>v.k\<close> for the property names the client reads. Only an object built by \<open>JSON.parse\<close> has
  them; on any other value the read gives \<open>undefined\<close> (the reads on \<open>null\<close> and
  \<open>undefined\<close> are all guarded by \<open>?.\<close> in the source).
\<close>

fun get_prop :: "jsval \<Rightarrow> string \<Rightarrow> jsval" where
  "get_prop (JObject fields) k = (case map_of fields k of Some v \<Rightarrow> v | None \<Rightarrow> JUndefined)"
| "get_prop _ k = JUndefined"

section \<open>lib/nvidia-nim/sentiment.ts\<close>

datatype overall = Positive | Negative | Neutral

datatype intensity = Low | Medium | High

record emotions =
  joy :: jsnum
  sadness :: jsnum
  anger :: jsnum
  fear :: jsnum
  surprise :: jsnum
  disgust :: jsnum

record SentimentAnalysis =
  overall :: overall
  confidence :: jsnum
  emotions :: emotions
  intensity :: intensity
  sa_keywords :: "string list"
  reasoning :: string

text \<open>
  What the JavaScript run time and the unchecked casts of the source contribute:
  the conversion of strings and arrays to numbers, the regular-expression match followed by
  \<open>JSON.parse\<close> (\<open>None\<close> when there is no match or the parse throws, otherwise the fields of
  the parsed object), and the casts of a parsed value to the declared field types.
\<close>

record js_env =
  StringToNumber :: "string \<Rightarrow> jsnum"
  ArrayToNumber :: "jsval list \<Rightarrow> jsnum"
  match_and_parse :: "string \<Rightarrow> (string \<times> jsval) list option"
  as_overall :: "jsval \<Rightarrow> overall"
  as_intensity :: "jsval \<Rightarrow> intensity"
  as_keywords :: "jsval list \<Rightarrow> string list"
  as_reasoning :: "jsval \<Rightarrow> string"

text \<open>\<open>ToNumber\<close>, as \<open>Math.min\<close> and \<open>Math.max\<close> apply it to their arguments.\<close>

fun ToNumber :: "js_env \<Rightarrow> jsval \<Rightarrow> jsnum" where
  "ToNumber env JUndefined = NaN"
| "ToNumber env JNull = Num 0"
| "ToNumber env (JBool b) = Num (if b then 1 else 0)"
| "ToNumber env (JNumber r) = Num r"
| "ToNumber env (JString s) = StringToNumber env s"
| "ToNumber env (JArray xs) = ArrayToNumber env xs"
| "ToNumber env (JObject _) = NaN"

definition positiveWords :: "string list" where
  "positiveWords = [''good'', ''great'', ''excellent'', ''amazing'', ''perfect'', ''love'',
     ''like'', ''happy'']"

definition negativeWords :: "string list" where
  "negativeWords = [''bad'', ''terrible'', ''awful'', ''hate'', ''dislike'', ''angry'',
     ''frustrated'', ''sad'']"

definition positiveCount :: "string \<Rightarrow> nat" where
  "positiveCount text = length (filter (\<lambda>word. includes_str (toLowerCase text) word) positiveWords)"

definition negativeCount :: "string \<Rightarrow> nat" where
  "negativeCount text = length (filter (\<lambda>word. includes_str (toLowerCase text) word) negativeWords)"

definition createFallbackSentiment :: "string \<Rightarrow> SentimentAnalysis" where
  "createFallbackSentiment text =
     (let ov = (if positiveCount text > negativeCount text then Positive
                else if negativeCount text > positiveCount text then Negative
                else Neutral)
      in \<lparr> overall = ov,
           confidence = Num 0.6,
           emotions = \<lparr> joy = (if ov = Positive then Num 0.7 else Num 0.3),
                        sadness = (if ov = Negative then Num 0.6 else Num 0.2),
                        anger = (if ov = Negative then Num 0.4 else Num 0.1),
                        fear = Num 0.1,
                        surprise = Num 0.2,
                        disgust = (if ov = Negative then Num 0.3 else Num 0.1) \<rparr>,
           intensity = Medium,
           sa_keywords = [],
           reasoning = ''Fallback analysis based on keyword detection'' \<rparr>)"

text \<open>\<open>Math.max(0, Math.min(1, v || d))\<close>\<close>

definition clamp01 :: "js_env \<Rightarrow> jsval \<Rightarrow> jsval \<Rightarrow> jsnum" where
  "clamp01 env v d = Math_max (Num 0) (Math_min (Num 1) (ToNumber env (js_or v d)))"

text \<open>\<open>parsed.emotions?.k\<close>\<close>

definition emotion_prop :: "jsval \<Rightarrow> string \<Rightarrow> jsval" where
  "emotion_prop parsed k =
     (let e = get_prop parsed ''emotions''
      in if e = JUndefined \<or> e = JNull then JUndefined else get_prop e k)"

definition parseSentimentResponse :: "js_env \<Rightarrow> string \<Rightarrow> string \<Rightarrow> SentimentAnalysis" where
  "parseSentimentResponse env responseText originalText =
     (case match_and_parse env responseText of
        None \<Rightarrow> createFallbackSentiment originalText
      | Some props \<Rightarrow>
          (let parsed = JObject props
           in \<lparr> overall = (if truthy (get_prop parsed ''overall'')
                             then as_overall env (get_prop parsed ''overall'') else Neutral),
                confidence = clamp01 env (get_prop parsed ''confidence'') (JNumber 0.5),
                emotions =
                  \<lparr> joy = clamp01 env (emotion_prop parsed ''joy'') (JNumber 0),
                    sadness = clamp01 env (emotion_prop parsed ''sadness'') (JNumber 0),
                    anger = clamp01 env (emotion_prop parsed ''anger'') (JNumber 0),
                    fear = clamp01 env (emotion_prop parsed ''fear'') (JNumber 0),
                    surprise = clamp01 env (emotion_prop parsed ''surprise'') (JNumber 0),
                    disgust = clamp01 env (emotion_prop parsed ''disgust'') (JNumber 0) \<rparr>,
                intensity = (if truthy (get_prop parsed ''intensity'')
                             then as_intensity env (get_prop parsed ''intensity'') else Low),
                sa_keywords = (case get_prop parsed ''keywords'' of
                              JArray ks \<Rightarrow> as_keywords env ks | _ \<Rightarrow> []),
                reasoning = (if truthy (get_prop parsed ''reasoning'')
                             then as_reasoning env (get_prop parsed ''reasoning'')
                             else ''Analysis completed'') \<rparr>))"

text \<open>
  What the call to the remote service comes to inside the \<open>try\<close> block of
  \<open>analyzeSentiment\<close>: \<open>fetch\<close> rejects, the status is not 2xx, the body is unusable or
  the content is missing (each of them throws), or a content string is handed to
  \<open>parseSentimentResponse\<close>.
\<close>

datatype remote_outcome =
    NetworkError
  | HttpError
  | MissingContent
  | Content string

fun analyzeSentiment :: "js_env \<Rightarrow> remote_outcome \<Rightarrow> string \<Rightarrow> SentimentAnalysis" where
  "analyzeSentiment env (Content analysisText) text = parseSentimentResponse env analysisText text"
| "analyzeSentiment env _ text = createFallbackSentiment text"

datatype shift_intensity = Subtle | Moderate | Dramatic

record ShiftResult =
  hasShift :: bool
  shiftType :: overall
  shift_intensity :: shift_intensity
  description :: string

fun overall_str :: "overall \<Rightarrow> string" where
  "overall_str Positive = ''positive''"
| "overall_str Negative = ''negative''"
| "overall_str Neutral = ''neutral''"

fun shift_intensity_str :: "shift_intensity \<Rightarrow> string" where
  "shift_intensity_str Subtle = ''subtle''"
| "shift_intensity_str Moderate = ''moderate''"
| "shift_intensity_str Dramatic = ''dramatic''"

text \<open>\<open>recentSentiments.reduce((sum, s) => sum + s.confidence, 0)\<close>\<close>

definition sum_confidence :: "SentimentAnalysis list \<Rightarrow> jsnum" where
  "sum_confidence xs = foldl (\<lambda>sum s. js_add sum (confidence s)) (Num 0) xs"

definition detectEmotionalShifts ::
    "SentimentAnalysis \<Rightarrow> SentimentAnalysis list \<Rightarrow> ShiftResult" where
  "detectEmotionalShifts currentSentiment previousSentiments =
     (if length previousSentiments = 0
      then \<lparr> hasShift = False, shiftType = Neutral, shift_intensity = Subtle,
             description = ''Initial sentiment baseline established'' \<rparr>
      else
        (let recentSentiments = slice_last 3 previousSentiments;
             avgPreviousConfidence =
               js_div_length (sum_confidence recentSentiments) (length recentSentiments);
             confidenceDiff = js_sub (confidence currentSentiment) avgPreviousConfidence;
             prevOverall = overall (last recentSentiments)
         in if \<not> (prevOverall \<noteq> overall currentSentiment)
            then \<lparr> hasShift = False, shiftType = Neutral, shift_intensity = Subtle,
                   description = ''Sentiment remains consistent'' \<rparr>
            else
              (let st = (if overall currentSentiment = Positive \<and> prevOverall \<noteq> Positive
                         then Positive
                         else if overall currentSentiment = Negative \<and> prevOverall \<noteq> Negative
                         then Negative
                         else Neutral);
                   it = (if js_gt (Math_abs confidenceDiff) (Num 0.3) then Dramatic
                         else if js_gt (Math_abs confidenceDiff) (Num 0.15) then Moderate
                         else Subtle)
               in \<lparr> hasShift = True, shiftType = st, shift_intensity = it,
                     description = ''Sentiment shifted from '' @ overall_str prevOverall
                       @ '' to '' @ overall_str (overall currentSentiment)
                       @ '' with '' @ shift_intensity_str it @ '' intensity'' \<rparr>)))"

section \<open>hooks/useSentimentAnalysis.ts\<close>

datatype alert_type = positive_shift | negative_shift | high_tension | mood_drop

datatype severity = SevLow | SevMedium | SevHigh

record EmotionalAlert =
  alert_id :: int
  alert_type :: alert_type
  message :: string
  alert_timestamp :: int
  severity :: severity

text \<open>
  The part of the hook's state that \<open>analyzeText\<close> reads and writes for shift detection:
  the \<open>sentimentHistory\<close> ref and, of the React state, the current sentiment and the alerts.
  The alert id \<open>alert_<Date.now()>\<close> is kept as the time it is built from.
\<close>

record sentiment_hook =
  currentSentiment :: "SentimentAnalysis option"
  emotionalAlerts :: "EmotionalAlert list"
  sentimentHistory :: "SentimentAnalysis list"

record SentimentSettings =
  enableRealTimeAnalysis :: bool
  emotionalShiftAlerts :: bool

text \<open>
  \<open>analyzeText\<close>, given whether the client exists, the outcome of the remote call and the
  time. It returns the sentiment (\<open>null\<close> as \<open>None\<close>) and the new state.
\<close>

definition analyzeText ::
    "js_env \<Rightarrow> SentimentSettings \<Rightarrow> bool \<Rightarrow> remote_outcome \<Rightarrow> int \<Rightarrow> string \<Rightarrow> sentiment_hook
      \<Rightarrow> SentimentAnalysis option \<times> sentiment_hook" where
  "analyzeText env settings hasClient outcome now text st =
     (if \<not> hasClient \<or> \<not> enableRealTimeAnalysis settings then (None, st)
      else
        (let sentiment = analyzeSentiment env outcome text;
             shiftAnalysis = detectEmotionalShifts sentiment (sentimentHistory st);
             st1 = (if emotionalShiftAlerts settings \<and> length (sentimentHistory st) > 0
                       \<and> hasShift shiftAnalysis \<and> shift_intensity shiftAnalysis \<noteq> Subtle
                    then st \<lparr> emotionalAlerts := slice_last 4 (emotionalAlerts st) @
                           [\<lparr> alert_id = now,
                              alert_type = (if shiftType shiftAnalysis = Positive
                                            then positive_shift else negative_shift),
                              message = description shiftAnalysis,
                              alert_timestamp = now,
                              severity = (if shift_intensity shiftAnalysis = Dramatic
                                          then SevHigh else SevMedium) \<rparr>] \<rparr>
                    else st);
             st2 = st1 \<lparr> sentimentHistory := slice_last 10 (sentimentHistory st1) @ [sentiment] \<rparr>
         in (Some sentiment, st2 \<lparr> currentSentiment := Some sentiment \<rparr>)))"

text \<open>A channel value lies in the closed unit interval.\<close>

fun in_unit :: "jsnum \<Rightarrow> bool" where
  "in_unit (Num r) = (0 \<le> r \<and> r \<le> 1)"
| "in_unit PosInf = False"
| "in_unit NegInf = False"
| "in_unit NaN = False"

definition range_safe :: "SentimentAnalysis \<Rightarrow> bool" where
  "range_safe r = (in_unit (confidence r) \<and> in_unit (joy (emotions r))
     \<and> in_unit (sadness (emotions r)) \<and> in_unit (anger (emotions r))
     \<and> in_unit (fear (emotions r)) \<and> in_unit (surprise (emotions r))
     \<and> in_unit (disgust (emotions r)))"

text \<open>The list words that occur in the lowercased text, as the specification counts them.\<close>

definition present :: "string \<Rightarrow> string list \<Rightarrow> string set" where
  "present text ws = {w \<in> set ws. \<exists>a b. toLowerCase text = a @ w @ b}"

text \<open>
  The specification's difference, \<open>current.confidence - average(last 3 history
  confidences)\<close>, as JavaScript computes it, and its class against the thresholds.
\<close>

definition average :: "jsnum list \<Rightarrow> jsnum" where
  "average cs = js_div_length (foldl js_add (Num 0) cs) (length cs)"

definition confidence_diff :: "jsnum \<Rightarrow> jsnum list \<Rightarrow> jsnum" where
  "confidence_diff c cs = js_sub c (average cs)"

definition classify_double :: "jsnum \<Rightarrow> shift_intensity" where
  "classify_double d =
     (if js_gt (Math_abs d) (Num 0.30) then Dramatic
      else if js_gt (Math_abs d) (Num 0.15) then Moderate
      else Subtle)"

text \<open>The intensity classes of an exact difference.\<close>

definition classify :: "real \<Rightarrow> shift_intensity" where
  "classify d = (if \<bar>d\<bar> > 0.30 then Dramatic else if \<bar>d\<bar> > 0.15 then Moderate else Subtle)"

text \<open>The same difference in exact arithmetic, for confidences given as reals.\<close>

definition exact_diff :: "real \<Rightarrow> real list \<Rightarrow> real" where
  "exact_diff c cs = c - sum_list cs / real (length cs)"

text \<open>A number is finite and within \<open>eps\<close> of a real.\<close>

fun is_near :: "jsnum \<Rightarrow> real \<Rightarrow> real \<Rightarrow> bool" where
  "is_near (Num a') a eps = (\<bar>a' - a\<bar> \<le> eps)"
| "is_near PosInf a eps = False"
| "is_near NegInf a eps = False"
| "is_near NaN a eps = False"

subsection \<open>Concrete inputs\<close>

definition sample :: "overall \<Rightarrow> real \<Rightarrow> SentimentAnalysis" where
  "sample ov c = \<lparr> overall = ov, confidence = Num c,
     emotions = \<lparr> joy = Num 0, sadness = Num 0, anger = Num 0, fear = Num 0, surprise = Num 0,
       disgust = Num 0 \<rparr>,
     intensity = Low, sa_keywords = [], reasoning = [] \<rparr>"

definition four_results :: "SentimentAnalysis list" where
  "four_results = [sample Negative 0, sample Positive 0.8, sample Neutral 0.8, sample Positive 0.8]"

text \<open>An environment in which no response parses.\<close>

definition plain_env :: js_env where
  "plain_env = \<lparr> StringToNumber = (\<lambda>s. NaN), ArrayToNumber = (\<lambda>xs. NaN),
     match_and_parse = (\<lambda>s. None), as_overall = (\<lambda>v. Neutral), as_intensity = (\<lambda>v. Low),
     as_keywords = (\<lambda>ks. []), as_reasoning = (\<lambda>v. []) \<rparr>"

text \<open>The response text \<^verbatim>\<open>{"confidence": {}}\<close> and an environment that parses it.\<close>

definition object_content :: string where
  "object_content = ''{'' @ [CHR 0x22] @ ''confidence'' @ [CHR 0x22] @ '': {}}''"

definition object_env :: js_env where
  "object_env = plain_env \<lparr> match_and_parse :=
     (\<lambda>s. if s = object_content then Some [(''confidence'', JObject [])] else None) \<rparr>"

definition full_history :: sentiment_hook where
  "full_history = \<lparr> currentSentiment = None, emotionalAlerts = [],
     sentimentHistory = replicate 10 (sample Neutral 0.6) \<rparr>"

section \<open>hooks/useCaptions.ts\<close>

subsection \<open>Text helpers\<close>

text \<open>The code units below 256 that \<open>\s\<close> and \<open>trim\<close> treat as white space.\<close>

definition isSpace :: "char \<Rightarrow> bool" where
  "isSpace c = ((of_char c :: nat) \<in> {9, 10, 11, 12, 13, 32, 160})"

definition trim :: "string \<Rightarrow> string" where
  "trim s = rev (dropWhile isSpace (rev (dropWhile isSpace s)))"

text \<open>
  \<open>s.split(/\s+/)\<close>: the pieces between maximal runs of white space; the flag says that the
  previous code unit was white space, the accumulator holds the current piece reversed.
\<close>

fun split_ws :: "bool \<Rightarrow> string \<Rightarrow> string \<Rightarrow> string list" where
  "split_ws inrun acc [] = [rev acc]"
| "split_ws inrun acc (c # cs) =
     (if isSpace c
      then (if inrun then split_ws True acc cs else rev acc # split_ws True [] cs)
      else split_ws False (c # acc) cs)"

definition split_spaces :: "string \<Rightarrow> string list" where
  "split_spaces s = split_ws False [] s"

text \<open>\<open>s.replace(/\s+/g, ' ')\<close>: every maximal run of white space becomes one space.\<close>

fun collapse_ws :: "bool \<Rightarrow> string \<Rightarrow> string" where
  "collapse_ws inrun [] = []"
| "collapse_ws inrun (c # cs) =
     (if isSpace c
      then (if inrun then collapse_ws True cs else CHR '' '' # collapse_ws True cs)
      else c # collapse_ws False cs)"

definition collapse_spaces :: "string \<Rightarrow> string" where
  "collapse_spaces s = collapse_ws False s"

text \<open>The decimal text of a number, as a template literal prints \<open>Date.now()\<close>.\<close>

fun show_nat :: "nat \<Rightarrow> string" where
  "show_nat n = (if n < 10 then [''0123456789'' ! n]
                 else show_nat (n div 10) @ [''0123456789'' ! (n mod 10)])"

declare show_nat.simps [simp del]

definition show_int :: "int \<Rightarrow> string" where
  "show_int i = (if i < 0 then ''-'' @ show_nat (nat (- i)) else show_nat (nat i))"

subsection \<open>Data\<close>

record TranscriptEntry =
  entry_text :: string
  timestamp :: int
  startTime :: int
  endTime :: int
  entry_confidence :: "real option"
  isFinal :: bool
  speaker :: string

record CaptionSession =
  session_id :: string
  session_name :: string
  session_startTime :: int
  session_endTime :: int
  session_transcript :: "TranscriptEntry list"
  language :: string

text \<open>One slot of a recognition event: \<open>result[0].transcript\<close>, \<open>result[0].confidence\<close>,
  \<open>result.isFinal\<close>.\<close>

record SpeechRecognitionResult =
  result_transcript :: string
  result_confidence :: real
  result_isFinal :: bool

subsection \<open>The session store\<close>

text \<open>
  Modelled from the spec: \<open>CaptionStorage\<close> (lib/captions/storage) is not among the sources.
  The specification gives it key-value semantics: \<open>saveSession\<close> is an upsert by id,
  \<open>getSession\<close> a lookup by id, \<open>deleteSession\<close> a removal by id.
\<close>

definition saveSession :: "CaptionSession list \<Rightarrow> CaptionSession \<Rightarrow> CaptionSession list" where
  "saveSession store s =
     (if \<exists>x \<in> set store. session_id x = session_id s
      then map (\<lambda>x. if session_id x = session_id s then s else x) store
      else store @ [s])"

definition getSession :: "CaptionSession list \<Rightarrow> string \<Rightarrow> CaptionSession option" where
  "getSession store i = find (\<lambda>x. session_id x = i) store"

definition deleteSession_store :: "CaptionSession list \<Rightarrow> string \<Rightarrow> CaptionSession list" where
  "deleteSession_store store i = filter (\<lambda>x. session_id x \<noteq> i) store"

subsection \<open>The state of the hook\<close>

text \<open>
  The React state (\<open>isListening\<close>, \<open>transcript\<close>, \<open>currentSession\<close>, \<open>error\<close>, \<open>sessions\<close>),
  the refs, the store, and two pieces of the environment the hook acts on:
  \<^item> \<open>timers\<close>: the time-outs the hook has set and that have neither fired nor been cleared,
    each with its handle and the time it is due; \<open>nextTimer\<close> is the next handle;
  \<^item> \<open>closureSession\<close>: the value of \<open>currentSession\<close> in the render whose effect installed
    the recognition handlers. The handlers read \<open>currentSession\<close> from that closure; the
    effect runs again only when the language or a recognition option changes.
  \<open>recognitionRef\<close> records whether a recognition object exists. Writes to refs, to the
  store and to the timers take effect at once. A function passed to \<open>setTranscript\<close> or
  \<open>setCurrentSession\<close> is queued and runs after the handler that queued it has returned,
  in the order of the calls; what such a function writes to a ref is written then, not
  when the handler calls the setter. All clock reads of one event give the same time.
\<close>

record captions_hook =
  isListening :: bool
  transcript :: "TranscriptEntry list"
  currentSession :: "CaptionSession option"
  error :: "string option"
  sessions :: "CaptionSession list"
  recognitionRef :: bool
  storage :: "CaptionSession list"
  beginTimeRef :: "int option"
  interimTimerRef :: "nat option"
  pendingInterimRef :: "TranscriptEntry option"
  lastFinalRef :: "TranscriptEntry option"
  closureSession :: "CaptionSession option"
  timers :: "(nat \<times> int) list"
  nextTimer :: nat

definition initial_hook :: "CaptionSession list \<Rightarrow> captions_hook" where
  "initial_hook store =
     \<lparr> isListening = False, transcript = [], currentSession = None, error = None,
       sessions = [], recognitionRef = False, storage = store, beginTimeRef = None,
       interimTimerRef = None, pendingInterimRef = None, lastFinalRef = None,
       closureSession = None, timers = [], nextTimer = 1 \<rparr>"

subsection \<open>The effect that creates the recognition object\<close>

record browser =
  isSecureContext :: bool
  hasSpeechRecognition :: bool
  constructorThrows :: bool

definition load_sessions :: "captions_hook \<Rightarrow> captions_hook" where
  "load_sessions s = (if length (sessions s) = 0 then s \<lparr> sessions := storage s \<rparr> else s)"

definition run_effect :: "browser \<Rightarrow> captions_hook \<Rightarrow> captions_hook" where
  "run_effect b s =
     (if \<not> isSecureContext b
      then s \<lparr> error := Some ''Speech recognition requires HTTPS. Please use a secure connection.'' \<rparr>
      else if hasSpeechRecognition b
      then (if constructorThrows b
            then load_sessions (s \<lparr> recognitionRef := False,
                   error := Some ''Failed to initialize speech recognition service.'' \<rparr>)
            else load_sessions (s \<lparr> recognitionRef := True, closureSession := currentSession s \<rparr>))
      else load_sessions (s \<lparr> error := Some (''Speech recognition not supported in this browser. ''
             @ ''Please use Chrome, Edge, or Safari.'') \<rparr>))"

definition recognition_onstart :: "int \<Rightarrow> captions_hook \<Rightarrow> captions_hook" where
  "recognition_onstart now s = s \<lparr> isListening := True, error := None, beginTimeRef := Some now \<rparr>"

text \<open>\<open>recognition.onend\<close>; the session it saves is the one its closure holds.\<close>

definition recognition_onend :: "captions_hook \<Rightarrow> captions_hook" where
  "recognition_onend s =
     (case closureSession s of
        None \<Rightarrow> s \<lparr> isListening := False \<rparr>
      | Some c \<Rightarrow> s \<lparr> isListening := False, storage := saveSession (storage s) c \<rparr>)"

subsection \<open>recognition.onresult\<close>

definition baseEntry :: "int \<Rightarrow> captions_hook \<Rightarrow> SpeechRecognitionResult \<Rightarrow> TranscriptEntry" where
  "baseEntry now s r =
     \<lparr> entry_text = trim (result_transcript r),
       timestamp = now,
       startTime = (case beginTimeRef s of Some b \<Rightarrow> b | None \<Rightarrow> now),
       endTime = now,
       entry_confidence = Some (result_confidence r),
       isFinal = result_isFinal r,
       speaker = ''User'' \<rparr>"

text \<open>
  The callback of the 120 ms time-out. It reads the buffer, clears the ref and queues one
  function for \<open>setTranscript\<close>, which runs as soon as the callback has returned.
\<close>

definition interim_timeout :: "captions_hook \<Rightarrow> captions_hook" where
  "interim_timeout s =
     (case pendingInterimRef s of
        None \<Rightarrow> s \<lparr> interimTimerRef := None \<rparr>
      | Some interim \<Rightarrow>
          s \<lparr> interimTimerRef := None,
              transcript := filter isFinal (transcript s) @ [interim] \<rparr>)"

definition clearTimeout :: "nat \<Rightarrow> captions_hook \<Rightarrow> captions_hook" where
  "clearTimeout h s = s \<lparr> timers := filter (\<lambda>(h', due). h' \<noteq> h) (timers s) \<rparr>"

text \<open>The branch for a result that is not final.\<close>

definition on_interim :: "int \<Rightarrow> TranscriptEntry \<Rightarrow> captions_hook \<Rightarrow> captions_hook" where
  "on_interim now e s =
     (let s1 = s \<lparr> pendingInterimRef := Some e \<rparr>
      in if interimTimerRef s1 = None
         then s1 \<lparr> timers := timers s1 @ [(nextTimer s1, now + 120)],
                   interimTimerRef := Some (nextTimer s1),
                   nextTimer := Suc (nextTimer s1) \<rparr>
         else s1)"

definition shouldMerge :: "TranscriptEntry option \<Rightarrow> TranscriptEntry \<Rightarrow> bool" where
  "shouldMerge lastRef finalEntry =
     (case lastRef of
        None \<Rightarrow> False
      | Some l \<Rightarrow>
          (let shortByChars = (length (entry_text finalEntry) \<le> 8);
               shortByWords = (length (split_spaces (entry_text finalEntry)) \<le> 2);
               closeInTime = (startTime finalEntry - endTime l \<le> 1500)
           in (shortByChars \<or> shortByWords) \<and> closeInTime))"

definition merge_text :: "string \<Rightarrow> string \<Rightarrow> string" where
  "merge_text a b = trim (collapse_spaces (a @ '' '' @ b))"

text \<open>The two functions the final branch passes to \<open>setTranscript\<close>.\<close>

definition append_transcript :: "int \<Rightarrow> TranscriptEntry \<Rightarrow> captions_hook \<Rightarrow> captions_hook" where
  "append_transcript now finalEntry s =
     s \<lparr> transcript := filter isFinal (transcript s) @ [finalEntry],
         beginTimeRef := Some now,
         lastFinalRef := Some finalEntry \<rparr>"

definition merge_transcript :: "int \<Rightarrow> TranscriptEntry \<Rightarrow> captions_hook \<Rightarrow> captions_hook" where
  "merge_transcript now finalEntry s =
     (if find isFinal (rev (transcript s)) = None
      then append_transcript now finalEntry s
      else
        (let updated = filter isFinal (transcript s);
             l = updated ! (length updated - 1);
             merged = l \<lparr> entry_text := merge_text (entry_text l) (entry_text finalEntry),
                          endTime := endTime finalEntry,
                          timestamp := now,
                          isFinal := True \<rparr>
         in s \<lparr> transcript := updated [length updated - 1 := merged],
                beginTimeRef := Some now,
                lastFinalRef := Some merged \<rparr>))"

text \<open>The function the merge branch passes to \<open>setCurrentSession\<close>; it also saves.\<close>

definition merge_session :: "int \<Rightarrow> TranscriptEntry \<Rightarrow> captions_hook \<Rightarrow> captions_hook" where
  "merge_session now finalEntry s =
     (case currentSession s of
        None \<Rightarrow> s
      | Some prevSession \<Rightarrow>
          (let t = session_transcript prevSession;
               t' = (if length t > 0
                     then t [length t - 1 :=
                            (t ! (length t - 1))
                              \<lparr> entry_text := merge_text (entry_text (t ! (length t - 1)))
                                                (entry_text finalEntry),
                                endTime := endTime finalEntry \<rparr>]
                     else t @ [finalEntry]);
               updatedSession = prevSession \<lparr> session_transcript := t',
                                               session_endTime := now \<rparr>
           in s \<lparr> currentSession := Some updatedSession,
                  storage := saveSession (storage s) updatedSession \<rparr>))"

text \<open>
  The session the append branch builds from the \<open>currentSession\<close> of its closure. It is
  saved by the handler itself and passed to \<open>setCurrentSession\<close> as a value.
\<close>

definition updatedSession :: "int \<Rightarrow> TranscriptEntry \<Rightarrow> CaptionSession \<Rightarrow> CaptionSession" where
  "updatedSession now finalEntry c =
     c \<lparr> session_transcript := session_transcript c @ [finalEntry], session_endTime := now \<rparr>"

text \<open>The queued state updates, and what each does when it runs.\<close>

datatype state_update =
    AppendTranscript TranscriptEntry
  | MergeTranscript TranscriptEntry
  | MergeSession TranscriptEntry
  | SetSession CaptionSession

fun apply_update :: "int \<Rightarrow> state_update \<Rightarrow> captions_hook \<Rightarrow> captions_hook" where
  "apply_update now (AppendTranscript finalEntry) s = append_transcript now finalEntry s"
| "apply_update now (MergeTranscript finalEntry) s = merge_transcript now finalEntry s"
| "apply_update now (MergeSession finalEntry) s = merge_session now finalEntry s"
| "apply_update now (SetSession c) s = s \<lparr> currentSession := Some c \<rparr>"

text \<open>
  The branch for a final result: it clears the interim buffer and the time-out, decides
  on the value \<open>lastFinalRef\<close> has while the handler runs, and returns the updates it queues.
\<close>

definition clear_pending :: "captions_hook \<Rightarrow> captions_hook" where
  "clear_pending s =
     (let s1 = s \<lparr> pendingInterimRef := None \<rparr>
      in case interimTimerRef s1 of
           Some h \<Rightarrow> (clearTimeout h s1) \<lparr> interimTimerRef := None \<rparr>
         | None \<Rightarrow> s1)"

definition on_final ::
    "int \<Rightarrow> TranscriptEntry \<Rightarrow> captions_hook \<Rightarrow> captions_hook \<times> state_update list" where
  "on_final now finalEntry s =
     (let s2 = clear_pending s
      in if shouldMerge (lastFinalRef s2) finalEntry
         then (s2, MergeTranscript finalEntry #
                   (case closureSession s2 of
                      None \<Rightarrow> []
                    | Some c \<Rightarrow> [MergeSession finalEntry]))
         else (case closureSession s2 of
                 None \<Rightarrow> (s2, [AppendTranscript finalEntry])
               | Some c \<Rightarrow>
                   (s2 \<lparr> storage := saveSession (storage s2) (updatedSession now finalEntry c) \<rparr>,
                    [AppendTranscript finalEntry, SetSession (updatedSession now finalEntry c)])))"

text \<open>One slot of the event, on the state and the updates queued so far.\<close>

definition process_result ::
    "int \<Rightarrow> SpeechRecognitionResult \<Rightarrow> captions_hook \<times> state_update list
      \<Rightarrow> captions_hook \<times> state_update list" where
  "process_result now r sq =
     (if \<not> result_isFinal r
      then (on_interim now (baseEntry now (fst sq) r) (fst sq), snd sq)
      else (fst (on_final now (baseEntry now (fst sq) r) (fst sq)),
            snd sq @ snd (on_final now (baseEntry now (fst sq) r) (fst sq))))"

text \<open>
  The handler: the slots from \<open>resultIndex\<close> on, in index order, and then the queued
  updates in the order they were queued.
\<close>

definition onresult ::
    "int \<Rightarrow> nat \<Rightarrow> SpeechRecognitionResult list \<Rightarrow> captions_hook \<Rightarrow> captions_hook" where
  "onresult now resultIndex results s =
     (let handled = fold (process_result now) (drop resultIndex results) (s, [])
      in fold (apply_update now) (snd handled) (fst handled))"

subsection \<open>startListening, loadSession, clearTranscript\<close>

datatype permission_state = PermissionsUnavailable | QueryFails | Granted | Prompt | Denied

datatype start_result = Started | InvalidStateError | OtherStartError

record start_env =
  secure :: bool
  microphone :: permission_state
  start_call :: start_result
  toLocaleString :: "int \<Rightarrow> string"

definition newSession :: "start_env \<Rightarrow> string \<Rightarrow> int \<Rightarrow> CaptionSession" where
  "newSession env lang now =
     \<lparr> session_id = ''session_'' @ show_int now,
       session_name = ''Meeting '' @ toLocaleString env now,
       session_startTime = now,
       session_endTime = now,
       session_transcript = [],
       language = lang \<rparr>"

definition startListening :: "start_env \<Rightarrow> string \<Rightarrow> int \<Rightarrow> captions_hook \<Rightarrow> captions_hook" where
  "startListening env lang now s =
     (if \<not> recognitionRef s then s \<lparr> error := Some ''Speech recognition not initialized'' \<rparr>
      else if isListening s then s
      else if \<not> secure env
      then s \<lparr> error := Some ''Speech recognition requires HTTPS. Please use a secure connection.'' \<rparr>
      else if microphone env = Denied
      then s \<lparr> error := Some ''Microphone permission denied. Please allow microphone access.'' \<rparr>
      else
        (let s1 = s \<lparr> currentSession := Some (newSession env lang now),
                      transcript := [],
                      error := None \<rparr>
         in case start_call env of
              Started \<Rightarrow> s1
            | InvalidStateError \<Rightarrow> s1 \<lparr> isListening := True \<rparr>
            | OtherStartError \<Rightarrow>
                s1 \<lparr> error := Some (''Failed to start speech recognition. ''
                       @ ''Please check your browser settings and permissions.'') \<rparr>))"

definition loadSession :: "string \<Rightarrow> captions_hook \<Rightarrow> captions_hook" where
  "loadSession sessionId s =
     (case getSession (storage s) sessionId of
        Some session \<Rightarrow> s \<lparr> currentSession := Some session,
                            transcript := session_transcript session \<rparr>
      | None \<Rightarrow> s)"

definition clearTranscript :: "captions_hook \<Rightarrow> captions_hook" where
  "clearTranscript s =
     (case currentSession s of
        None \<Rightarrow> s \<lparr> transcript := [] \<rparr>
      | Some c \<Rightarrow>
          s \<lparr> transcript := [],
              currentSession := Some (c \<lparr> session_transcript := [] \<rparr>),
              storage := saveSession (storage s) (c \<lparr> session_transcript := [] \<rparr>) \<rparr>)"

subsection \<open>Runs of recognition events\<close>

text \<open>A recognition event is a call of the result handler or the firing of a time-out.\<close>

datatype recognition_event =
    OnResult int nat "SpeechRecognitionResult list"
  | TimerFires nat

definition fire_timer :: "nat \<Rightarrow> captions_hook \<Rightarrow> captions_hook" where
  "fire_timer h s =
     (if h \<in> fst ` set (timers s) then interim_timeout (clearTimeout h s) else s)"

fun step :: "recognition_event \<Rightarrow> captions_hook \<Rightarrow> captions_hook" where
  "step (OnResult now resultIndex results) s = onresult now resultIndex results s"
| "step (TimerFires h) s = fire_timer h s"

definition run_events :: "recognition_event list \<Rightarrow> captions_hook \<Rightarrow> captions_hook" where
  "run_events evs s = fold step evs s"

fun interim_event :: "recognition_event \<Rightarrow> bool" where
  "interim_event (OnResult now resultIndex results) =
     list_all (\<lambda>r. \<not> result_isFinal r) (drop resultIndex results)"
| "interim_event (TimerFires h) = True"

text \<open>
  Timed runs: the handler calls arrive with their times, in order; before each call, and at
  the end of the run, the time-outs that are due fire. Each time a time-out callback calls
  \<open>setTranscript\<close>, the log records the display sequence that results.
\<close>

fun fire_all ::
    "(nat \<times> int) list \<Rightarrow> captions_hook \<times> TranscriptEntry list list
      \<Rightarrow> captions_hook \<times> TranscriptEntry list list" where
  "fire_all [] sl = sl"
| "fire_all ((h, due) # ds) (s, out) =
     fire_all ds
       (interim_timeout (clearTimeout h s),
        (if pendingInterimRef s = None then out
         else out @ [transcript (interim_timeout (clearTimeout h s))]))"

definition fire_due ::
    "int \<Rightarrow> captions_hook \<times> TranscriptEntry list list
      \<Rightarrow> captions_hook \<times> TranscriptEntry list list" where
  "fire_due t sl = fire_all (filter (\<lambda>(h, due). due \<le> t) (timers (fst sl))) sl"

fun run_timed ::
    "(int \<times> nat \<times> SpeechRecognitionResult list) list
      \<Rightarrow> captions_hook \<times> TranscriptEntry list list
      \<Rightarrow> captions_hook \<times> TranscriptEntry list list" where
  "run_timed [] sl = sl"
| "run_timed ((t, resultIndex, results) # evs) sl =
     run_timed evs (onresult t resultIndex results (fst (fire_due t sl)), snd (fire_due t sl))"

subsection \<open>Predicates of the specification\<close>

text \<open>The most recent final entry of a sequence.\<close>

definition last_final :: "TranscriptEntry list \<Rightarrow> TranscriptEntry option" where
  "last_final xs = find isFinal (rev xs)"

text \<open>The merge decision in the specification's words: \<open>last\<close> is the most recent final
  entry of the existing sequence.\<close>

definition spec_shouldMerge :: "TranscriptEntry list \<Rightarrow> TranscriptEntry \<Rightarrow> bool" where
  "spec_shouldMerge xs finalEntry =
     (case last_final xs of
        None \<Rightarrow> False
      | Some l \<Rightarrow> (length (entry_text finalEntry) \<le> 8
                    \<or> length (split_spaces (entry_text finalEntry)) \<le> 2)
                   \<and> startTime finalEntry - endTime l \<le> 1500)"

text \<open>Every entry before the tail is final.\<close>

definition interim_only_at_tail :: "TranscriptEntry list \<Rightarrow> bool" where
  "interim_only_at_tail xs = list_all isFinal (butlast xs)"

definition session_final :: "CaptionSession \<Rightarrow> bool" where
  "session_final c = list_all isFinal (session_transcript c)"

definition sessions_final :: "captions_hook \<Rightarrow> bool" where
  "sessions_final s =
     ((case currentSession s of None \<Rightarrow> True | Some c \<Rightarrow> session_final c)
      \<and> (case closureSession s of None \<Rightarrow> True | Some c \<Rightarrow> session_final c)
      \<and> list_all session_final (storage s))"

text \<open>A queued update that carries only final entries.\<close>

fun final_update :: "state_update \<Rightarrow> bool" where
  "final_update (AppendTranscript e) = isFinal e"
| "final_update (MergeTranscript e) = isFinal e"
| "final_update (MergeSession e) = isFinal e"
| "final_update (SetSession c) = session_final c"

text \<open>At most one time-out is in flight, and it is the one the ref holds.\<close>

definition one_timer :: "captions_hook \<Rightarrow> bool" where
  "one_timer s =
     (case interimTimerRef s of
        None \<Rightarrow> timers s = []
      | Some h \<Rightarrow> (case timers s of [(h', due)] \<Rightarrow> h' = h | _ \<Rightarrow> False))"

section \<open>hooks/useNimCaptions.ts\<close>

datatype processing_status = Pending | Processing | Enhanced | Error

record EnhancedTranscriptEntry = TranscriptEntry +
  enhancedText :: "string option"
  nimConfidence :: "real option"
  processingStatus :: processing_status
  originalText :: string

record NimCaptionSettings =
  enableNvidiaEnhancement :: bool
  enhanceOnlyFinalCaptions :: bool
  useContextAwareness :: bool
  autoGenerateSummary :: bool
  extractActionItems_setting :: bool
  confidenceThreshold :: real

text \<open>Of the session, the fields the hook reads and writes.\<close>

record NimCaptionSession =
  nim_session_name :: string
  summary :: "string option"
  actionItems :: "string list option"
  nimProcessed :: bool

record nim_hook =
  nimSettings :: NimCaptionSettings
  enhancedTranscript :: "EnhancedTranscriptEntry list"
  currentNimSession :: "NimCaptionSession option"
  isProcessingNim :: bool
  nimProcessingQueue :: "string list"
  processedEntries :: "string set"
  contextCache :: "string list"

definition convertToEnhanced :: "TranscriptEntry \<Rightarrow> EnhancedTranscriptEntry" where
  "convertToEnhanced entry =
     \<lparr> entry_text = entry_text entry, timestamp = timestamp entry, startTime = startTime entry,
       endTime = endTime entry, entry_confidence = entry_confidence entry,
       isFinal = isFinal entry, speaker = speaker entry,
       enhancedText = None, nimConfidence = None, processingStatus = Pending,
       originalText = entry_text entry \<rparr>"

text \<open>The composite id: the time stamp, an underscore, the first 20 code units of the
  original text.\<close>

definition entry_id :: "EnhancedTranscriptEntry \<Rightarrow> string" where
  "entry_id e = show_int (timestamp e) @ ''_'' @ take 20 (originalText e)"

text \<open>
  A call of \<open>callNimApi\<close>: the end point with its payload. The remote service is a function
  from the request to a result or, as \<open>Inl\<close>, the message of the error that is thrown.
\<close>

datatype nim_request =
    EnhanceCaptions string string "string list"
  | Summarize string string

definition set_status ::
    "string \<Rightarrow> processing_status \<Rightarrow> EnhancedTranscriptEntry list \<Rightarrow> EnhancedTranscriptEntry list" where
  "set_status entryId st es =
     map (\<lambda>e. if entry_id e = entryId then e \<lparr> processingStatus := st \<rparr> else e) es"

text \<open>The \<open>finally\<close> block; \<open>queue0\<close> is the queue as the callback's closure holds it.\<close>

definition finish_enhance :: "string list \<Rightarrow> string \<Rightarrow> nim_hook \<Rightarrow> nim_hook" where
  "finish_enhance queue0 entryId s =
     s \<lparr> nimProcessingQueue := filter (\<lambda>i. i \<noteq> entryId) (nimProcessingQueue s),
         isProcessingNim := (length queue0 > 1) \<rparr>"

definition enhance_context :: "nim_hook \<Rightarrow> string" where
  "enhance_context s =
     (if useContextAwareness (nimSettings s)
      then ''Meeting context: '' @
           (case currentNimSession s of
              Some c \<Rightarrow> (if nim_session_name c \<noteq> [] then nim_session_name c else ''Video meeting'')
            | None \<Rightarrow> ''Video meeting'')
      else [])"

definition enhance_request :: "nim_hook \<Rightarrow> EnhancedTranscriptEntry \<Rightarrow> nim_request" where
  "enhance_request s entry =
     EnhanceCaptions (originalText entry) (enhance_context s)
       (if useContextAwareness (nimSettings s) then slice_last 3 (contextCache s) else [])"

text \<open>\<open>enhanceCaption\<close>, with the remote calls it makes.\<close>

definition enhanceCaption ::
    "(nim_request \<Rightarrow> string + string) \<Rightarrow> string \<Rightarrow> nim_hook \<Rightarrow> nim_hook \<times> nim_request list" where
  "enhanceCaption api entryId s =
     (if entryId \<in> set (nimProcessingQueue s) then (s, [])
      else
        (let queue0 = nimProcessingQueue s;
             s1 = s \<lparr> nimProcessingQueue := queue0 @ [entryId], isProcessingNim := True \<rparr>
         in case find (\<lambda>e. entry_id e = entryId) (enhancedTranscript s) of
              None \<Rightarrow>
                (finish_enhance queue0 entryId
                   (s1 \<lparr> enhancedTranscript := set_status entryId Error (enhancedTranscript s1) \<rparr>),
                 [])
            | Some entry \<Rightarrow>
                (let s2 = s1 \<lparr> enhancedTranscript :=
                                  set_status entryId Processing (enhancedTranscript s1) \<rparr>;
                     request = enhance_request s entry
                 in case api request of
                      Inr enhanced \<Rightarrow>
                        (finish_enhance queue0 entryId
                           (s2 \<lparr> enhancedTranscript :=
                                   map (\<lambda>e. if entry_id e = entryId
                                             then e \<lparr> enhancedText := Some enhanced,
                                                      processingStatus := Enhanced,
                                                      nimConfidence := Some 0.95 \<rparr>
                                             else e) (enhancedTranscript s2),
                                 contextCache :=
                                   (if useContextAwareness (nimSettings s)
                                    then slice_last 10 (contextCache s2 @ [enhanced])
                                    else contextCache s2),
                                 processedEntries := insert entryId (processedEntries s2) \<rparr>),
                         [request])
                    | Inl err \<Rightarrow>
                        (finish_enhance queue0 entryId
                           (s2 \<lparr> enhancedTranscript :=
                                   set_status entryId Error (enhancedTranscript s2) \<rparr>),
                         [request]))))"

text \<open>
  The effect that follows the original transcript: it rebuilds the enhanced view and
  returns the ids it hands to \<open>enhanceCaption\<close>.
\<close>

definition eligible :: "nim_hook \<Rightarrow> EnhancedTranscriptEntry \<Rightarrow> bool" where
  "eligible s entry =
     (isFinal entry
      \<and> entry_id entry \<notin> processedEntries s
      \<and> (case entry_confidence entry of
            None \<Rightarrow> False
          | Some c \<Rightarrow> c \<ge> confidenceThreshold (nimSettings s)))"

definition enhancement_effect :: "TranscriptEntry list \<Rightarrow> nim_hook \<Rightarrow> nim_hook \<times> string list" where
  "enhancement_effect original s =
     (let newEnhanced = map convertToEnhanced original
      in (s \<lparr> enhancedTranscript := newEnhanced \<rparr>,
          if enableNvidiaEnhancement (nimSettings s)
          then (if enhanceOnlyFinalCaptions (nimSettings s)
                then map entry_id (filter (eligible s) newEnhanced)
                else [])
          else []))"

text \<open>\<open>xs.join('\n')\<close>\<close>

fun join_lines :: "string list \<Rightarrow> string" where
  "join_lines [] = []"
| "join_lines [x] = x"
| "join_lines (x # y # zs) = x @ [CHR 0x0A] @ join_lines (y # zs)"

text \<open>\<open>entry.enhancedText || entry.originalText\<close>: an empty string is falsy.\<close>

definition best_text :: "EnhancedTranscriptEntry \<Rightarrow> string" where
  "best_text entry =
     (case enhancedText entry of
        Some t \<Rightarrow> (if t \<noteq> [] then t else originalText entry)
      | None \<Rightarrow> originalText entry)"

definition transcriptText :: "EnhancedTranscriptEntry list \<Rightarrow> string" where
  "transcriptText es = join_lines (map best_text (filter isFinal es))"

definition generateSummary ::
    "(nim_request \<Rightarrow> string + string) \<Rightarrow> nim_hook
      \<Rightarrow> (string + unit) \<times> nim_hook \<times> nim_request list" where
  "generateSummary api s =
     (if currentNimSession s = None \<or> length (enhancedTranscript s) = 0
      then (Inl ''No transcript available for summary'', s, [])
      else
        (let request = Summarize (transcriptText (enhancedTranscript s)) ''summary''
         in case api request of
              Inr result \<Rightarrow>
                (Inr (),
                 s \<lparr> currentNimSession :=
                       map_option (\<lambda>prev. prev \<lparr> summary := Some result, nimProcessed := True \<rparr>)
                         (currentNimSession s),
                     isProcessingNim := False \<rparr>,
                 [request])
            | Inl err \<Rightarrow> (Inl err, s \<lparr> isProcessingNim := False \<rparr>, [request])))"

definition extractActionItems ::
    "(nim_request \<Rightarrow> string + string list) \<Rightarrow> nim_hook
      \<Rightarrow> (string + unit) \<times> nim_hook \<times> nim_request list" where
  "extractActionItems api s =
     (if currentNimSession s = None \<or> length (enhancedTranscript s) = 0
      then (Inl ''No transcript available for action item extraction'', s, [])
      else
        (let request = Summarize (transcriptText (enhancedTranscript s)) ''action-items''
         in case api request of
              Inr result \<Rightarrow>
                (Inr (),
                 s \<lparr> currentNimSession :=
                       map_option (\<lambda>prev. prev \<lparr> actionItems := Some result, nimProcessed := True \<rparr>)
                         (currentNimSession s),
                     isProcessingNim := False \<rparr>,
                 [request])
            | Inl err \<Rightarrow> (Inl err, s \<lparr> isProcessingNim := False \<rparr>, [request])))"

text \<open>
  The payload in the specification's words: the best available text of the final entries,
  in order, a newline between one and the next.
\<close>

fun spec_payload :: "EnhancedTranscriptEntry list \<Rightarrow> string" where
  "spec_payload [] = []"
| "spec_payload (e # es) =
     (if isFinal e
      then (if list_ex isFinal es then best_text e @ [CHR 0x0A] @ spec_payload es
            else best_text e)
      else spec_payload es)"

section \<open>Concrete runs\<close>

definition interim_result :: "string \<Rightarrow> SpeechRecognitionResult" where
  "interim_result t = \<lparr> result_transcript = t, result_confidence = 0.5, result_isFinal = False \<rparr>"

definition final_result :: "string \<Rightarrow> SpeechRecognitionResult" where
  "final_result t = \<lparr> result_transcript = t, result_confidence = 0.9, result_isFinal = True \<rparr>"

definition chrome :: browser where
  "chrome = \<lparr> isSecureContext = True, hasSpeechRecognition = True, constructorThrows = False \<rparr>"

definition https_granted :: start_env where
  "https_granted = \<lparr> secure = True, microphone = Granted, start_call = Started,
     toLocaleString = show_int \<rparr>"

text \<open>A session stored by an earlier visit.\<close>

definition stored_session :: CaptionSession where
  "stored_session =
     \<lparr> session_id = ''session_1'', session_name = ''Meeting 1'', session_startTime = 0,
       session_endTime = 1000,
       session_transcript =
         [\<lparr> entry_text = ''see you tomorrow'', timestamp = 1000, startTime = 0, endTime = 1000,
            entry_confidence = Some 0.9, isFinal = True, speaker = ''User'' \<rparr>],
       language = ''en-US'' \<rparr>"

text \<open>The hook is mounted, a session is started at 90000 and recognition starts.\<close>

definition listening :: captions_hook where
  "listening = recognition_onstart 90000
     (startListening https_granted ''en-US'' 90000 (run_effect chrome (initial_hook [stored_session])))"

text \<open>A first utterance becomes final at 95000.\<close>

definition after_hello :: captions_hook where
  "after_hello = onresult 95000 0 [final_result ''hello''] listening"

text \<open>While recognition goes on, the stored session is loaded.\<close>

definition after_load :: captions_hook where
  "after_load = loadSession ''session_1''
     (onresult 95000 0 [final_result ''hello everyone and welcome''] listening)"

text \<open>Recognition ends after the first utterance, and a new session is started at 96000.\<close>

definition restarted :: captions_hook where
  "restarted = startListening https_granted ''en-US'' 96000 (recognition_onend after_hello)"

text \<open>
  Three interim results, 100 ms apart, on a fresh hook; and, after the first utterance,
  three calls with interim results that are 50 ms apart.
\<close>

definition three_interims :: "(int \<times> nat \<times> SpeechRecognitionResult list) list" where
  "three_interims = [(0, 0, [interim_result ''he'']), (100, 0, [interim_result ''hell'']),
     (200, 0, [interim_result ''hello''])]"

definition quick_interims :: "(int \<times> nat \<times> SpeechRecognitionResult list) list" where
  "quick_interims = [(95100, 0, [interim_result ''wo'']), (95150, 0, [interim_result ''wor'']),
     (95200, 1, [interim_result ''wor'', interim_result ''world''])]"

text \<open>Two utterances that become final in one recognition event.\<close>

definition two_finals :: "SpeechRecognitionResult list" where
  "two_finals = [final_result ''hello'', final_result ''world'']"

text \<open>An enhanced view with one interim entry, and one with a final entry.\<close>

definition default_settings :: NimCaptionSettings where
  "default_settings = \<lparr> enableNvidiaEnhancement = True, enhanceOnlyFinalCaptions = True,
     useContextAwareness = True, autoGenerateSummary = False, extractActionItems_setting = False,
     confidenceThreshold = 0.7 \<rparr>"

definition spoken :: "string \<Rightarrow> bool \<Rightarrow> TranscriptEntry" where
  "spoken t fin = \<lparr> entry_text = t, timestamp = 5000, startTime = 4000, endTime = 5000,
     entry_confidence = Some 0.9, isFinal = fin, speaker = ''User'' \<rparr>"

definition nim_with :: "TranscriptEntry list \<Rightarrow> nim_hook" where
  "nim_with es = \<lparr> nimSettings = default_settings, enhancedTranscript = map convertToEnhanced es,
     currentNimSession = Some \<lparr> nim_session_name = ''Meeting 1'', summary = None,
       actionItems = None, nimProcessed = False \<rparr>,
     isProcessingNim = False, nimProcessingQueue = [], processedEntries = {}, contextCache = [] \<rparr>"

definition failing_api :: "nim_request \<Rightarrow> string + string" where
  "failing_api request = Inl ''API call failed: 500''"

definition echo_api :: "nim_request \<Rightarrow> string + string" where
  "echo_api request = Inr ''ok''"

definition list_api :: "nim_request \<Rightarrow> string + string list" where
  "list_api request = Inr [''ok'']"

text \<open>Interim results and a time-out, and the entries of the runs above.\<close>

definition interim_events :: "recognition_event list" where
  "interim_events = [OnResult 90100 0 [interim_result ''he''],
     OnResult 90150 0 [interim_result ''hell''], TimerFires 1,
     OnResult 90300 0 [interim_result ''hello'']]"

definition hello_entry :: TranscriptEntry where
  "hello_entry = \<lparr> entry_text = ''hello'', timestamp = 95000, startTime = 90000,
     endTime = 95000, entry_confidence = Some 0.9, isFinal = True, speaker = ''User'' \<rparr>"

definition hello_there :: TranscriptEntry where
  "hello_there = spoken ''hello there'' True"

definition hello_id :: string where
  "hello_id = entry_id (convertToEnhanced hello_there)"

section \<open>Properties of the sentiment client\<close>

lemma includes_str_iff: "includes_str s w \<longleftrightarrow> (\<exists>a b. s = a @ w @ b)"
proof (induction s)
  case Nil
  then show ?case by auto
next
  case (Cons c cs)
  have "startsWith (c # cs) w \<longleftrightarrow> (\<exists>b. c # cs = w @ b)"
    unfolding startsWith_def
    by (metis append_eq_conv_conj)
  moreover have "(\<exists>a b. c # cs = a @ w @ b) \<longleftrightarrow> (\<exists>b. c # cs = w @ b) \<or> (\<exists>a b. cs = a @ w @ b)"
  proof
    assume "\<exists>a b. c # cs = a @ w @ b"
    then obtain a b where ab: "c # cs = a @ w @ b" by blast
    show "(\<exists>b. c # cs = w @ b) \<or> (\<exists>a b. cs = a @ w @ b)"
    proof (cases a)
      case Nil
      with ab show ?thesis by auto
    next
      case (Cons x a')
      with ab have "cs = a' @ w @ b" by simp
      then show ?thesis by blast
    qed
  next
    assume "(\<exists>b. c # cs = w @ b) \<or> (\<exists>a b. cs = a @ w @ b)"
    then show "\<exists>a b. c # cs = a @ w @ b"
    proof
      assume "\<exists>b. c # cs = w @ b"
      then obtain b where "c # cs = [] @ w @ b" by auto
      then show ?thesis by blast
    next
      assume "\<exists>a b. cs = a @ w @ b"
      then obtain a b where "c # cs = (c # a) @ w @ b" by auto
      then show ?thesis by blast
    qed
  qed
  ultimately show ?case using Cons.IH by simp
qed

lemma length_filter_card: "distinct ws \<Longrightarrow> length (filter P ws) = card {w \<in> set ws. P w}"
  using distinct_card [of "filter P ws"] by simp

lemma positiveCount_card: "positiveCount text = card (present text positiveWords)"
proof -
  have "distinct positiveWords" by (simp add: positiveWords_def)
  then show ?thesis
    by (simp add: positiveCount_def present_def includes_str_iff length_filter_card)
qed

lemma negativeCount_card: "negativeCount text = card (present text negativeWords)"
proof -
  have "distinct negativeWords" by (simp add: negativeWords_def)
  then show ?thesis
    by (simp add: negativeCount_def present_def includes_str_iff length_filter_card)
qed

text \<open>
  C7. The fallback heuristic decides \<open>overall\<close> from the numbers of positive-list and
  negative-list words that occur in the lowercased text: positive exactly when the positive
  count is larger, negative exactly when the negative count is larger, neutral otherwise.
  A text with exactly two positive-list words and no negative-list word gives positive,
  confidence 0.6 and the emotions joy 0.7, sadness 0.2, anger 0.1, fear 0.1, surprise 0.2,
  disgust 0.1.
\<close>

theorem createFallbackSentiment_keyword_rule:
  "(overall (createFallbackSentiment text) = Positive
      \<longleftrightarrow> card (present text positiveWords) > card (present text negativeWords))
   \<and> (overall (createFallbackSentiment text) = Negative
      \<longleftrightarrow> card (present text negativeWords) > card (present text positiveWords))
   \<and> (overall (createFallbackSentiment text) = Neutral
      \<longleftrightarrow> card (present text positiveWords) = card (present text negativeWords))
   \<and> (card (present text positiveWords) = 2 \<and> card (present text negativeWords) = 0 \<longrightarrow>
        overall (createFallbackSentiment text) = Positive
        \<and> confidence (createFallbackSentiment text) = Num 0.6
        \<and> emotions (createFallbackSentiment text) =
            \<lparr> joy = Num 0.7, sadness = Num 0.2, anger = Num 0.1, fear = Num 0.1,
              surprise = Num 0.2, disgust = Num 0.1 \<rparr>)"
  by (simp add: createFallbackSentiment_def Let_def positiveCount_card negativeCount_card)

theorem createFallbackSentiment_keyword_rule_witness:
  "card (present ''Good work, GREAT results'' positiveWords) = 2
   \<and> card (present ''Good work, GREAT results'' negativeWords) = 0
   \<and> overall (createFallbackSentiment ''Good work, GREAT results'') = Positive
   \<and> confidence (createFallbackSentiment ''Good work, GREAT results'') = Num 0.6
   \<and> emotions (createFallbackSentiment ''Good work, GREAT results'') =
        \<lparr> joy = Num 0.7, sadness = Num 0.2, anger = Num 0.1, fear = Num 0.1,
          surprise = Num 0.2, disgust = Num 0.1 \<rparr>"
proof -
  have p: "positiveCount ''Good work, GREAT results'' = 2" by code_simp
  have n: "negativeCount ''Good work, GREAT results'' = 0" by code_simp
  have p': "card (present ''Good work, GREAT results'' positiveWords) = 2"
    using p by (simp only: positiveCount_card)
  have n': "card (present ''Good work, GREAT results'' negativeWords) = 0"
    using n by (simp only: negativeCount_card)
  show ?thesis
    using createFallbackSentiment_keyword_rule [of "''Good work, GREAT results''"] p' n'
    by blast
qed


lemma slice_last_offset: "xs \<noteq> [] \<Longrightarrow> 0 < n \<Longrightarrow> length xs - n < length xs"
  by (metis diff_less length_greater_0_conv)

lemma last_slice_last: "xs \<noteq> [] \<Longrightarrow> 0 < n \<Longrightarrow> last (slice_last n xs) = last xs"
  unfolding slice_last_def by (rule last_drop) (rule slice_last_offset)

lemma slice_last_nonempty: "xs \<noteq> [] \<Longrightarrow> 0 < n \<Longrightarrow> slice_last n xs \<noteq> []"
  unfolding slice_last_def using slice_last_offset [of xs n] by (simp del: diff_less)

lemma length_slice_last: "length (slice_last n xs) = min n (length xs)"
  by (simp add: slice_last_def)

subsection \<open>Rounding to doubles\<close>

lemma exponent_from_lower: "- 1022 \<le> exponent_from n a"
  by (induction n) auto

lemma exponent_from_upper:
  assumes "a < 2 powi (k + 1)" and "- 1022 \<le> k"
  shows "exponent_from n a \<le> k"
proof (induction n)
  case 0
  from assms(2) show ?case by simp
next
  case (Suc n)
  have "int (Suc n) - 1022 \<le> k" if le: "2 powi (int (Suc n) - 1022) \<le> a"
  proof (rule ccontr)
    assume "\<not> int (Suc n) - 1022 \<le> k"
    then have "k + 1 \<le> int (Suc n) - 1022" by simp
    then have "(2::real) powi (k + 1) \<le> 2 powi (int (Suc n) - 1022)"
      by (rule power_int_increasing) simp
    with le assms(1) show False by linarith
  qed
  with Suc show ?case by simp
qed

lemma exponent_from_reach:
  assumes "2 powi e \<le> a" and "- 1022 \<le> e"
  shows "e \<le> int n - 1022 \<Longrightarrow> e \<le> exponent_from n a"
proof (induction n)
  case 0
  with assms(2) show ?case by simp
next
  case (Suc n)
  show ?case
  proof (cases "2 powi (int (Suc n) - 1022) \<le> a")
    case True
    with Suc.prems show ?thesis by simp
  next
    case False
    with assms(1) have "e \<noteq> int (Suc n) - 1022" by auto
    with Suc.prems have "e \<le> int n - 1022" by simp
    with Suc.IH False show ?thesis by simp
  qed
qed

lemma exponent_le: "a < 2 powi (k + 1) \<Longrightarrow> - 1022 \<le> k \<Longrightarrow> exponent a \<le> k"
  unfolding exponent_def by (rule exponent_from_upper)

lemma exponent_eq:
  assumes "2 powi e \<le> a" and "a < 2 powi (e + 1)" and "- 1022 \<le> e" and "e \<le> 1023"
  shows "exponent a = e"
proof -
  have "exponent a \<le> e" using assms(2,3) by (rule exponent_le)
  moreover have "e \<le> exponent a"
    unfolding exponent_def using assms(1,3) by (rule exponent_from_reach) (use assms(4) in simp)
  ultimately show ?thesis by simp
qed

lemma round_even_error: "\<bar>of_int (round_even q) - q\<bar> \<le> 1 / 2"
proof -
  have "of_int \<lfloor>q\<rfloor> \<le> q" "q < of_int \<lfloor>q\<rfloor> + 1" by linarith+
  then show ?thesis by (auto simp: round_even_def Let_def)
qed

lemma fl_near:
  assumes "\<bar>x\<bar> < 2 powi (k + 1)" and "- 1022 \<le> k" and "k \<le> 1022"
  shows "\<exists>r. fl x = Num r \<and> \<bar>r - x\<bar> \<le> 2 powi (k - 53)"
proof -
  define ulp :: real where "ulp = 2 powi (exponent \<bar>x\<bar> - 52)"
  define r where "r = of_int (round_even (x / ulp)) * ulp"
  have e: "exponent \<bar>x\<bar> \<le> k" using assms(1,2) by (rule exponent_le)
  have pos: "0 < ulp" by (simp add: ulp_def)
  have "ulp \<le> 2 powi (k - 52)"
    unfolding ulp_def using e by (intro power_int_increasing) auto
  moreover have "(2::real) powi (k - 52) = 2 * 2 powi (k - 53)"
    using power_int_add [of "2::real" "k - 53" 1] by simp
  ultimately have ulp: "ulp / 2 \<le> 2 powi (k - 53)" by simp
  have "r - x = (of_int (round_even (x / ulp)) - x / ulp) * ulp"
    using pos by (simp add: r_def algebra_simps)
  then have "\<bar>r - x\<bar> = \<bar>of_int (round_even (x / ulp)) - x / ulp\<bar> * ulp"
    using pos by (simp add: abs_mult)
  also have "\<dots> \<le> 1 / 2 * ulp"
    using round_even_error pos by (intro mult_right_mono) auto
  finally have err: "\<bar>r - x\<bar> \<le> 2 powi (k - 53)" using ulp by simp
  have "(2::real) powi (k - 53) < 2 powi (k + 1)"
    by (rule power_int_strict_increasing) simp_all
  with err assms(1) have "\<bar>r\<bar> < 2 * 2 powi (k + 1)" by linarith
  moreover have "(2::real) powi (k + 2) = 2 * 2 powi (k + 1)"
    using power_int_add [of "2::real" "k + 1" 1] by (simp add: add.commute)
  moreover have "(2::real) powi (k + 2) \<le> 2 powi 1024"
    using assms(3) by (intro power_int_increasing) auto
  ultimately have "\<not> 2 powi 1024 \<le> \<bar>r\<bar>" by linarith
  then have "fl x = Num r" by (simp add: fl_def Let_def r_def ulp_def)
  with err show ?thesis by blast
qed

lemma fl_eval:
  assumes "2 powi e \<le> \<bar>x\<bar>" and "\<bar>x\<bar> < 2 powi (e + 1)" and "- 1022 \<le> e" and "e \<le> 1022"
    and "round_even (x / 2 powi (e - 52)) = m"
  shows "fl x = Num (of_int m * 2 powi (e - 52))"
proof -
  have ex: "exponent \<bar>x\<bar> = e" using assms(1,2,3) by (rule exponent_eq) (use assms(4) in simp)
  obtain r where "fl x = Num r" using fl_near [OF assms(2,3,4)] by blast
  then show ?thesis using assms(5) by (simp add: fl_def Let_def ex split: if_splits)
qed

lemma fl_zero: "fl 0 = Num 0"
proof -
  have "exponent 0 \<le> - 1022" by (rule exponent_le) simp_all
  obtain r where "fl 0 = Num r" using fl_near [of 0 "- 1022"] by auto
  then show ?thesis by (simp add: fl_def Let_def round_even_def split: if_splits)
qed

lemma fl_small: "\<bar>x\<bar> < 4 \<Longrightarrow> \<exists>r. fl x = Num r \<and> \<bar>r - x\<bar> \<le> 2 powi (- 52)"
  using fl_near [of x 1] by simp

subsection \<open>Accumulated rounding error of the confidence difference\<close>

lemma is_nearE: "is_near x a e \<Longrightarrow> \<exists>a'. x = Num a' \<and> \<bar>a' - a\<bar> \<le> e"
  by (cases x) auto

lemma is_near_mono: "is_near x a e \<Longrightarrow> e \<le> e' \<Longrightarrow> is_near x a e'"
  by (cases x) auto

lemma near_as_double:
  assumes "is_near x a e" and "\<bar>a\<bar> \<le> 3" and "e \<le> 1 / 16"
  shows "is_near (as_double x) a (e + 2 powi (- 52))"
proof -
  from assms(1) obtain a' where x: "x = Num a'" and a': "\<bar>a' - a\<bar> \<le> e"
    using is_nearE by blast
  from a' assms(2,3) have "\<bar>a'\<bar> < 4" by linarith
  then obtain r where r: "fl a' = Num r" "\<bar>r - a'\<bar> \<le> 2 powi (- 52)"
    using fl_small by blast
  from r(2) a' have "\<bar>r - a\<bar> \<le> e + 2 powi (- 52)" by linarith
  with x r(1) show ?thesis by simp
qed

lemma near_add:
  assumes "is_near x a e1" and "is_near y b e2"
    and "\<bar>a\<bar> \<le> 3" and "\<bar>b\<bar> \<le> 3" and "\<bar>a + b\<bar> \<le> 3" and "e1 \<le> 1 / 16" and "e2 \<le> 1 / 16"
  shows "is_near (js_add x y) (a + b) (e1 + e2 + 3 * 2 powi (- 52))"
proof -
  obtain a' where x: "as_double x = Num a'" and a': "\<bar>a' - a\<bar> \<le> e1 + 2 powi (- 52)"
    using near_as_double [OF assms(1,3,6)] is_nearE by blast
  obtain b' where y: "as_double y = Num b'" and b': "\<bar>b' - b\<bar> \<le> e2 + 2 powi (- 52)"
    using near_as_double [OF assms(2,4,7)] is_nearE by blast
  have "\<bar>a' + b'\<bar> < 4" using a' b' assms(5,6,7) by simp
  then obtain r where r: "fl (a' + b') = Num r" "\<bar>r - (a' + b')\<bar> \<le> 2 powi (- 52)"
    using fl_small by blast
  from r(2) a' b' have "\<bar>r - (a + b)\<bar> \<le> e1 + e2 + 3 * 2 powi (- 52)" by linarith
  with x y r(1) show ?thesis by (simp add: js_add_def)
qed

lemma near_sub:
  assumes "is_near x a e1" and "is_near y b e2"
    and "\<bar>a\<bar> \<le> 3" and "\<bar>b\<bar> \<le> 3" and "\<bar>a - b\<bar> \<le> 3" and "e1 \<le> 1 / 16" and "e2 \<le> 1 / 16"
  shows "is_near (js_sub x y) (a - b) (e1 + e2 + 3 * 2 powi (- 52))"
proof -
  obtain a' where x: "as_double x = Num a'" and a': "\<bar>a' - a\<bar> \<le> e1 + 2 powi (- 52)"
    using near_as_double [OF assms(1,3,6)] is_nearE by blast
  obtain b' where y: "as_double y = Num b'" and b': "\<bar>b' - b\<bar> \<le> e2 + 2 powi (- 52)"
    using near_as_double [OF assms(2,4,7)] is_nearE by blast
  have "\<bar>a' + - b'\<bar> < 4" using a' b' assms(5,6,7) by simp
  then obtain r where r: "fl (a' + - b') = Num r" "\<bar>r - (a' + - b')\<bar> \<le> 2 powi (- 52)"
    using fl_small by blast
  from r(2) a' b' have "\<bar>r - (a - b)\<bar> \<le> e1 + e2 + 3 * 2 powi (- 52)" by linarith
  with x y r(1) show ?thesis by (simp add: js_sub_def)
qed

lemma div_by_count:
  assumes "1 \<le> (m::real)" and "0 \<le> u"
  shows "u / m \<le> u"
proof -
  have "u * 1 \<le> u * m" using assms by (intro mult_left_mono)
  moreover have "0 < m" using assms(1) by linarith
  ultimately show ?thesis by (simp add: pos_divide_le_eq)
qed

lemma near_div_length:
  assumes "is_near x a e" and "\<bar>a\<bar> \<le> 3" and "e \<le> 1 / 16" and "0 < n"
  shows "is_near (js_div_length x n) (a / real n) (e + 2 * 2 powi (- 52))"
proof -
  obtain a' where x: "as_double x = Num a'" and a': "\<bar>a' - a\<bar> \<le> e + 2 powi (- 52)"
    using near_as_double [OF assms(1,2,3)] is_nearE by blast
  have n: "1 \<le> real n" using assms(4) by simp
  have "\<bar>a' / real n\<bar> \<le> \<bar>a'\<bar>"
    using div_by_count [OF n, of "\<bar>a'\<bar>"] by simp
  moreover have "\<bar>a'\<bar> < 4" using a' assms(2,3) by simp
  ultimately have "\<bar>a' / real n\<bar> < 4" by linarith
  then obtain r where r: "fl (a' / real n) = Num r" "\<bar>r - a' / real n\<bar> \<le> 2 powi (- 52)"
    using fl_small by blast
  have "a' / real n - a / real n = (a' - a) / real n" by (simp add: diff_divide_distrib)
  then have "\<bar>a' / real n - a / real n\<bar> = \<bar>a' - a\<bar> / real n" by simp
  also have "\<dots> \<le> \<bar>a' - a\<bar>" using div_by_count [OF n, of "\<bar>a' - a\<bar>"] by simp
  finally have "\<bar>a' / real n - a / real n\<bar> \<le> e + 2 powi (- 52)" using a' by linarith
  with r(2) have "\<bar>r - a / real n\<bar> \<le> e + 2 * 2 powi (- 52)" by linarith
  with x r(1) assms(4) show ?thesis by (simp add: js_div_length_def)
qed

lemma near_abs:
  assumes "is_near x a e" and "\<bar>a\<bar> \<le> 3" and "e \<le> 1 / 16"
  shows "is_near (Math_abs x) \<bar>a\<bar> (e + 2 powi (- 52))"
proof -
  obtain a' where x: "as_double x = Num a'" and a': "\<bar>a' - a\<bar> \<le> e + 2 powi (- 52)"
    using near_as_double [OF assms] is_nearE by blast
  from a' have "\<bar>\<bar>a'\<bar> - \<bar>a\<bar>\<bar> \<le> e + 2 powi (- 52)" by linarith
  with x show ?thesis by (simp add: Math_abs_def)
qed

lemma near_gt:
  assumes "is_near x a e1" and "is_near y b e2"
    and "\<bar>a\<bar> \<le> 3" and "\<bar>b\<bar> \<le> 3" and "e1 \<le> 1 / 16" and "e2 \<le> 1 / 16"
  shows "b + (e1 + e2 + 2 * 2 powi (- 52)) < a \<Longrightarrow> js_gt x y"
    and "a + (e1 + e2 + 2 * 2 powi (- 52)) \<le> b \<Longrightarrow> \<not> js_gt x y"
proof -
  obtain a' where x: "as_double x = Num a'" and a': "\<bar>a' - a\<bar> \<le> e1 + 2 powi (- 52)"
    using near_as_double [OF assms(1,3,5)] is_nearE by blast
  obtain b' where y: "as_double y = Num b'" and b': "\<bar>b' - b\<bar> \<le> e2 + 2 powi (- 52)"
    using near_as_double [OF assms(2,4,6)] is_nearE by blast
  show "b + (e1 + e2 + 2 * 2 powi (- 52)) < a \<Longrightarrow> js_gt x y"
    using a' b' by (simp add: js_gt_def x y)
  show "a + (e1 + e2 + 2 * 2 powi (- 52)) \<le> b \<Longrightarrow> \<not> js_gt x y"
    using a' b' by (simp add: js_gt_def x y)
qed

lemma sum_list_unit:
  "\<forall>v\<in>set cs. 0 \<le> v \<and> v \<le> (1::real) \<Longrightarrow> 0 \<le> sum_list cs \<and> sum_list cs \<le> real (length cs)"
  by (induction cs) auto

lemma near_sum:
  "map confidence xs = map Num cs \<Longrightarrow> \<forall>v\<in>set cs. 0 \<le> v \<and> v \<le> 1 \<Longrightarrow>
   is_near acc A e \<Longrightarrow> 0 \<le> A \<Longrightarrow> A + real (length cs) \<le> 3 \<Longrightarrow>
   e + 3 * 2 powi (- 52) * real (length cs) \<le> 1 / 16 \<Longrightarrow>
   is_near (foldl (\<lambda>sum s. js_add sum (confidence s)) acc xs) (A + sum_list cs)
     (e + 3 * 2 powi (- 52) * real (length cs))"
proof (induction xs arbitrary: acc A e cs)
  case Nil
  then show ?case by simp
next
  case (Cons x xs)
  from Cons.prems(1) obtain v cs' where cs: "cs = v # cs'" "confidence x = Num v"
      "map confidence xs = map Num cs'"
    by (cases cs) auto
  from Cons.prems(2) cs(1) have v: "0 \<le> v" "v \<le> 1" and rest: "\<forall>v\<in>set cs'. 0 \<le> v \<and> v \<le> 1"
    by auto
  have len: "real (length cs) = real (length cs') + 1" using cs(1) by simp
  have "0 \<le> 3 * 2 powi (- 52) * real (length cs)" by simp
  with Cons.prems(6) have e: "e \<le> 1 / 16" by linarith
  have "is_near (js_add acc (Num v)) (A + v) (e + 0 + 3 * 2 powi (- 52))"
    using Cons.prems(3)
  proof (rule near_add)
    show "is_near (Num v) v 0" by simp
    show "\<bar>A\<bar> \<le> 3" "\<bar>v\<bar> \<le> 3" "\<bar>A + v\<bar> \<le> 3" using Cons.prems(4,5) v len by simp_all
    show "e \<le> 1 / 16" by (rule e)
  qed simp
  then have step: "is_near (js_add acc (confidence x)) (A + v) (e + 3 * 2 powi (- 52))"
    by (simp add: cs(2))
  have split: "3 * 2 powi (- 52) * real (length cs)
            = 3 * 2 powi (- 52) + 3 * 2 powi (- 52) * real (length cs')"
    by (simp add: len distrib_left)
  have "is_near (foldl (\<lambda>sum s. js_add sum (confidence s)) (js_add acc (confidence x)) xs)
          (A + v + sum_list cs') (e + 3 * 2 powi (- 52) + 3 * 2 powi (- 52) * real (length cs'))"
    using cs(3) rest step
  proof (rule Cons.IH)
    show "0 \<le> A + v" using Cons.prems(4) v by simp
    show "A + v + real (length cs') \<le> 3" using Cons.prems(5) v len by simp
    from Cons.prems(6) split
    show "e + 3 * 2 powi (- 52) + 3 * 2 powi (- 52) * real (length cs') \<le> 1 / 16"
      by linarith
  qed
  then have "is_near (foldl (\<lambda>sum s. js_add sum (confidence s)) acc (x # xs))
          (A + sum_list cs) (e + 3 * 2 powi (- 52) + 3 * 2 powi (- 52) * real (length cs'))"
    by (simp only: foldl_Cons cs(1) sum_list.Cons add.assoc)
  moreover have "e + 3 * 2 powi (- 52) + 3 * 2 powi (- 52) * real (length cs')
                  \<le> e + 3 * 2 powi (- 52) * real (length cs)"
    using split by linarith
  ultimately show ?case by (rule is_near_mono)
qed

lemma near_confidence_diff:
  assumes cs: "map confidence xs = map Num cs" and unit: "\<forall>v\<in>set cs. 0 \<le> v \<and> v \<le> 1"
    and len: "cs \<noteq> []" "length cs \<le> 3" and c: "0 \<le> c" "c \<le> 1"
  shows "is_near (Math_abs (js_sub (Num c) (js_div_length (sum_confidence xs) (length xs))))
           \<bar>exact_diff c cs\<bar> (15 * 2 powi (- 52))"
proof -
  have n: "length xs = length cs" using cs by (metis length_map)
  have s: "0 \<le> sum_list cs" "sum_list cs \<le> real (length cs)"
    using sum_list_unit [OF unit] by simp_all
  have l3: "real (length cs) \<le> 3" using len(2) by simp
  have l1: "1 \<le> real (length cs)" using len(1) by (cases cs) simp_all
  have "is_near (sum_confidence xs) (0 + sum_list cs) (0 + 3 * 2 powi (- 52) * real (length cs))"
    unfolding sum_confidence_def using cs unit
  proof (rule near_sum)
    show "is_near (Num 0) 0 0" by simp
    show "0 + real (length cs) \<le> 3" using l3 by simp
    have "3 * 2 powi (- 52) * real (length cs) \<le> 3 * 2 powi (- 52) * 3"
      using l3 by (intro mult_left_mono) simp_all
    then show "0 + 3 * 2 powi (- 52) * real (length cs) \<le> 1 / 16" by simp
  qed simp
  moreover have "3 * 2 powi (- 52) * real (length cs) \<le> 9 * 2 powi (- 52)"
    using l3 by simp
  ultimately have sum: "is_near (sum_confidence xs) (sum_list cs) (9 * 2 powi (- 52))"
    using is_near_mono by simp
  have "is_near (js_div_length (sum_confidence xs) (length cs))
          (sum_list cs / real (length cs)) (9 * 2 powi (- 52) + 2 * 2 powi (- 52))"
    using sum
  proof (rule near_div_length)
    show "\<bar>sum_list cs\<bar> \<le> 3" using s l3 by simp
    show "0 < length cs" using len(1) by simp
  qed simp
  then have avg: "is_near (js_div_length (sum_confidence xs) (length xs))
          (sum_list cs / real (length cs)) (11 * 2 powi (- 52))"
    by (simp add: n)
  have lpos: "0 < real (length cs)" using l1 by linarith
  have a01: "0 \<le> sum_list cs / real (length cs)" "sum_list cs / real (length cs) \<le> 1"
    using s lpos by (simp_all add: pos_divide_le_eq)
  have "is_near (js_sub (Num c) (js_div_length (sum_confidence xs) (length xs)))
          (c - sum_list cs / real (length cs)) (0 + 11 * 2 powi (- 52) + 3 * 2 powi (- 52))"
  proof (rule near_sub [OF _ avg])
    show "is_near (Num c) c 0" by simp
    show "\<bar>c\<bar> \<le> 3" "\<bar>sum_list cs / real (length cs)\<bar> \<le> 3"
      "\<bar>c - sum_list cs / real (length cs)\<bar> \<le> 3"
      using c a01 by simp_all
  qed simp_all
  then have "is_near (js_sub (Num c) (js_div_length (sum_confidence xs) (length xs)))
          (exact_diff c cs) (14 * 2 powi (- 52))"
    by (simp add: exact_diff_def)
  then have "is_near (Math_abs (js_sub (Num c) (js_div_length (sum_confidence xs) (length xs))))
          \<bar>exact_diff c cs\<bar> (14 * 2 powi (- 52) + 2 powi (- 52))"
  proof (rule near_abs)
    show "\<bar>exact_diff c cs\<bar> \<le> 3" using c a01 by (simp add: exact_diff_def)
  qed simp
  then show ?thesis by simp
qed

lemma near_threshold:
  assumes "is_near x a (15 * 2 powi (- 52))" and "0 \<le> a" and "a \<le> 1" and "0 \<le> t" and "t \<le> 1"
  shows "t + 2 powi (- 47) \<le> a \<Longrightarrow> js_gt x (Num t)"
    and "a + 2 powi (- 47) \<le> t \<Longrightarrow> \<not> js_gt x (Num t)"
proof -
  have t: "is_near (Num t) t 0" by simp
  show "t + 2 powi (- 47) \<le> a \<Longrightarrow> js_gt x (Num t)"
    by (rule near_gt(1) [OF assms(1) t]) (use assms in simp_all)
  show "a + 2 powi (- 47) \<le> t \<Longrightarrow> \<not> js_gt x (Num t)"
    by (rule near_gt(2) [OF assms(1) t]) (use assms in simp_all)
qed

lemma sum_confidence_map: "sum_confidence xs = foldl js_add (Num 0) (map confidence xs)"
  by (simp add: sum_confidence_def foldl_map)

lemma classify_threshold:
  assumes near: "is_near x a (15 * 2 powi (- 52))" and a: "0 \<le> a" "a \<le> 1"
    and m: "2 powi (- 47) \<le> \<bar>a - 0.30\<bar>" "2 powi (- 47) \<le> \<bar>a - 0.15\<bar>"
  shows "(if js_gt x (Num 0.30) then Dramatic else if js_gt x (Num 0.15) then Moderate else Subtle)
         = (if a > 0.30 then Dramatic else if a > 0.15 then Moderate else Subtle)"
proof -
  have hi: "js_gt x (Num 0.30) \<longleftrightarrow> a > 0.30"
    using near_threshold [OF near a, of "0.30"] m(1) by (cases "a > 0.30") auto
  have lo: "js_gt x (Num 0.15) \<longleftrightarrow> a > 0.15"
    using near_threshold [OF near a, of "0.15"] m(2) by (cases "a > 0.15") auto
  show ?thesis by (simp only: hi lo)
qed


subsection \<open>The decimals of the examples as doubles\<close>

lemma fl_decimals:
  "fl (3 / 5) = Num (5404319552844595 / 9007199254740992)"
  "fl (5404319552844595 / 9007199254740992) = Num (5404319552844595 / 9007199254740992)"
  "fl (9 / 10) = Num (8106479329266893 / 9007199254740992)"
  "fl (8106479329266893 / 9007199254740992) = Num (8106479329266893 / 9007199254740992)"
  "fl (3 / 4) = Num (3 / 4)"
  "fl (3 / 10) = Num (5404319552844595 / 18014398509481984)"
  "fl (3 / 20) = Num (5404319552844595 / 36028797018963968)"
  "fl (1351079888211149 / 4503599627370496) = Num (1351079888211149 / 4503599627370496)"
  "fl (1351079888211149 / 9007199254740992) = Num (1351079888211149 / 9007199254740992)"
  "fl (5404319552844595 / 18014398509481984) = Num (5404319552844595 / 18014398509481984)"
  "fl (5404319552844595 / 36028797018963968) = Num (5404319552844595 / 36028797018963968)"
proof -
  show "fl (3 / 5) = Num (5404319552844595 / 9007199254740992)"
    using fl_eval [of "- 1" "3 / 5" 5404319552844595] by (simp add: round_even_def Let_def)
  show "fl (5404319552844595 / 9007199254740992) = Num (5404319552844595 / 9007199254740992)"
    using fl_eval [of "- 1" "5404319552844595 / 9007199254740992" 5404319552844595]
    by (simp add: round_even_def Let_def)
  show "fl (9 / 10) = Num (8106479329266893 / 9007199254740992)"
    using fl_eval [of "- 1" "9 / 10" 8106479329266893] by (simp add: round_even_def Let_def)
  show "fl (8106479329266893 / 9007199254740992) = Num (8106479329266893 / 9007199254740992)"
    using fl_eval [of "- 1" "8106479329266893 / 9007199254740992" 8106479329266893]
    by (simp add: round_even_def Let_def)
  show "fl (3 / 4) = Num (3 / 4)"
    using fl_eval [of "- 1" "3 / 4" 6755399441055744] by (simp add: round_even_def Let_def)
  show "fl (3 / 10) = Num (5404319552844595 / 18014398509481984)"
    using fl_eval [of "- 2" "3 / 10" 5404319552844595] by (simp add: round_even_def Let_def)
  show "fl (3 / 20) = Num (5404319552844595 / 36028797018963968)"
    using fl_eval [of "- 3" "3 / 20" 5404319552844595] by (simp add: round_even_def Let_def)
  show "fl (1351079888211149 / 4503599627370496) = Num (1351079888211149 / 4503599627370496)"
    using fl_eval [of "- 2" "1351079888211149 / 4503599627370496" 5404319552844596]
    by (simp add: round_even_def Let_def)
  show "fl (1351079888211149 / 9007199254740992) = Num (1351079888211149 / 9007199254740992)"
    using fl_eval [of "- 3" "1351079888211149 / 9007199254740992" 5404319552844596]
    by (simp add: round_even_def Let_def)
  show "fl (5404319552844595 / 18014398509481984) = Num (5404319552844595 / 18014398509481984)"
    using fl_eval [of "- 2" "5404319552844595 / 18014398509481984" 5404319552844595]
    by (simp add: round_even_def Let_def)
  show "fl (5404319552844595 / 36028797018963968) = Num (5404319552844595 / 36028797018963968)"
    using fl_eval [of "- 3" "5404319552844595 / 36028797018963968" 5404319552844595]
    by (simp add: round_even_def Let_def)
qed

text \<open>
  At the thresholds the rounding decides. The doubles 0.9 and 0.6 differ by
  0.30000000000000004, and 0.75 and 0.6 by 0.15000000000000002; the doubles 0.3 and 0.15
  themselves are not above the thresholds.
\<close>

lemma boundary_differences:
  "classify_double (confidence_diff (Num 0.9) [Num 0.6]) = Dramatic"
  "classify_double (confidence_diff (Num 0.75) [Num 0.6]) = Moderate"
  "classify_double (confidence_diff (Num 0.3) [Num 0]) = Moderate"
  "classify_double (confidence_diff (Num 0.15) [Num 0]) = Subtle"
  by (simp_all add: classify_double_def confidence_diff_def average_def js_add_def js_sub_def
      js_div_length_def Math_abs_def js_gt_def fl_zero fl_decimals)


text \<open>
  C8. With a non-empty history, \<open>detectEmotionalShifts\<close> reports no shift whenever the
  current \<open>overall\<close> equals that of the most recent history item, whatever the confidences
  are. When they differ it reports a shift whose intensity is the class of the difference
  between the current confidence and the average of the last three history confidences, as
  computed in double precision: dramatic above 0.30, moderate above 0.15, subtle otherwise.
  For confidences between 0 and 1 the class is that of the exact difference whenever the
  exact difference is at least \<open>2 powi (- 47)\<close> away from both thresholds; so exact
  differences of 0.31, 0.20 and 0.05 are dramatic, moderate and subtle.
\<close>

theorem detectEmotionalShifts_rule:
  assumes "prev \<noteq> []"
  shows "(overall (last prev) = overall cur \<longrightarrow>
            hasShift (detectEmotionalShifts cur prev) = False)
       \<and> (overall (last prev) \<noteq> overall cur \<longrightarrow>
            hasShift (detectEmotionalShifts cur prev) = True
            \<and> shift_intensity (detectEmotionalShifts cur prev)
                = classify_double
                    (confidence_diff (confidence cur) (map confidence (slice_last 3 prev))))
       \<and> (overall (last prev) \<noteq> overall cur
            \<and> confidence cur = Num c \<and> 0 \<le> c \<and> c \<le> 1
            \<and> map confidence (slice_last 3 prev) = map Num cs
            \<and> (\<forall>v\<in>set cs. 0 \<le> v \<and> v \<le> 1) \<longrightarrow>
            (2 powi (- 47) \<le> \<bar>\<bar>exact_diff c cs\<bar> - 0.30\<bar>
               \<and> 2 powi (- 47) \<le> \<bar>\<bar>exact_diff c cs\<bar> - 0.15\<bar> \<longrightarrow>
               shift_intensity (detectEmotionalShifts cur prev) = classify (exact_diff c cs))
            \<and> (\<bar>exact_diff c cs\<bar> = 0.31 \<longrightarrow>
                 shift_intensity (detectEmotionalShifts cur prev) = Dramatic)
            \<and> (\<bar>exact_diff c cs\<bar> = 0.20 \<longrightarrow>
                 shift_intensity (detectEmotionalShifts cur prev) = Moderate)
            \<and> (\<bar>exact_diff c cs\<bar> = 0.05 \<longrightarrow>
                 shift_intensity (detectEmotionalShifts cur prev) = Subtle))"
proof -
  let ?recent = "slice_last 3 prev"
  let ?it = "shift_intensity (detectEmotionalShifts cur prev)"
  let ?abs = "Math_abs (js_sub (confidence cur)
                (js_div_length (sum_confidence ?recent) (length ?recent)))"
  have ne: "?recent \<noteq> []" using assms by (simp add: slice_last_nonempty)
  have lst: "last ?recent = last prev" using assms by (simp add: last_slice_last)
  have eq: "overall (last prev) = overall cur \<Longrightarrow>
            hasShift (detectEmotionalShifts cur prev) = False"
    using assms by (simp add: detectEmotionalShifts_def Let_def lst)
  have it: "?it = (if js_gt ?abs (Num 0.30) then Dramatic
                   else if js_gt ?abs (Num 0.15) then Moderate else Subtle)"
      and sh: "hasShift (detectEmotionalShifts cur prev) = True"
    if "overall (last prev) \<noteq> overall cur"
    using assms that by (simp_all add: detectEmotionalShifts_def Let_def lst)
  have dbl: "?it = classify_double
                    (confidence_diff (confidence cur) (map confidence ?recent))"
    if "overall (last prev) \<noteq> overall cur"
    unfolding it [OF that]
    by (simp only: classify_double_def confidence_diff_def average_def sum_confidence_map
        length_map)
  have ex: "(2 powi (- 47) \<le> \<bar>\<bar>exact_diff c cs\<bar> - 0.30\<bar>
               \<and> 2 powi (- 47) \<le> \<bar>\<bar>exact_diff c cs\<bar> - 0.15\<bar> \<longrightarrow>
               ?it = classify (exact_diff c cs))
            \<and> (\<bar>exact_diff c cs\<bar> = 0.31 \<longrightarrow> ?it = Dramatic)
            \<and> (\<bar>exact_diff c cs\<bar> = 0.20 \<longrightarrow> ?it = Moderate)
            \<and> (\<bar>exact_diff c cs\<bar> = 0.05 \<longrightarrow> ?it = Subtle)"
    if d: "overall (last prev) \<noteq> overall cur"
      and c: "confidence cur = Num c" "0 \<le> c" "c \<le> 1"
      and cs: "map confidence ?recent = map Num cs" "\<forall>v\<in>set cs. 0 \<le> v \<and> v \<le> 1"
  proof -
    have len: "length cs = length ?recent" using cs(1) by (metis length_map)
    have l: "cs \<noteq> []" "length cs \<le> 3"
      using ne cs(1) len by (auto simp: length_slice_last)
    have near: "is_near ?abs \<bar>exact_diff c cs\<bar> (15 * 2 powi (- 52))"
      unfolding c(1) using cs l c(2,3) by (rule near_confidence_diff)
    have s: "0 \<le> sum_list cs" "sum_list cs \<le> real (length cs)"
      using sum_list_unit [OF cs(2)] by simp_all
    have lpos: "0 < real (length cs)" using l(1) by (cases cs) simp_all
    have avg: "0 \<le> sum_list cs / real (length cs)" "sum_list cs / real (length cs) \<le> 1"
      using s lpos by (simp_all add: pos_divide_le_eq)
    have a: "0 \<le> \<bar>exact_diff c cs\<bar>" "\<bar>exact_diff c cs\<bar> \<le> 1"
      using c(2,3) avg by (simp_all add: exact_diff_def)
    have main: "?it = classify (exact_diff c cs)"
      if "2 powi (- 47) \<le> \<bar>\<bar>exact_diff c cs\<bar> - 0.30\<bar>"
        and "2 powi (- 47) \<le> \<bar>\<bar>exact_diff c cs\<bar> - 0.15\<bar>"
      unfolding it [OF d] classify_def using near a that by (rule classify_threshold)
    have "?it = Dramatic" if "\<bar>exact_diff c cs\<bar> = 0.31"
      using main that by (simp add: classify_def)
    moreover have "?it = Moderate" if "\<bar>exact_diff c cs\<bar> = 0.20"
      using main that by (simp add: classify_def)
    moreover have "?it = Subtle" if "\<bar>exact_diff c cs\<bar> = 0.05"
      using main that by (simp add: classify_def)
    ultimately show ?thesis using main by blast
  qed
  from eq sh dbl ex show ?thesis by blast
qed


theorem detectEmotionalShifts_rule_witness:
  "four_results \<noteq> [] \<and> [sample Positive 0.6] \<noteq> []
   \<and> hasShift (detectEmotionalShifts (sample Positive 0.99) four_results) = False
   \<and> hasShift (detectEmotionalShifts (sample Negative 0.99) four_results) = True
   \<and> shift_intensity (detectEmotionalShifts (sample Negative 0.99) four_results) = Moderate
   \<and> shift_intensity (detectEmotionalShifts (sample Negative 0.45) four_results) = Dramatic
   \<and> shift_intensity (detectEmotionalShifts (sample Negative 0.49) four_results) = Dramatic
   \<and> shift_intensity (detectEmotionalShifts (sample Negative 0.6) four_results) = Moderate
   \<and> shift_intensity (detectEmotionalShifts (sample Negative 0.75) four_results) = Subtle
   \<and> shift_intensity (detectEmotionalShifts (sample Negative 0.9) [sample Positive 0.6])
       = Dramatic
   \<and> shift_intensity (detectEmotionalShifts (sample Negative 0.75) [sample Positive 0.6])
       = Moderate
   \<and> shift_intensity (detectEmotionalShifts (sample Negative 0.3) [sample Positive 0])
       = Moderate
   \<and> shift_intensity (detectEmotionalShifts (sample Negative 0.15) [sample Positive 0])
       = Subtle"
proof -
  have a: "four_results \<noteq> []" by (simp add: four_results_def)
  have l: "last four_results = sample Positive 0.8" by (simp add: four_results_def)
  have m: "map confidence (slice_last 3 four_results) = map Num [0.8, 0.8, 0.8]"
    by (simp add: slice_last_def four_results_def sample_def)
  have u: "\<forall>v\<in>set [0.8, 0.8, 0.8::real]. 0 \<le> v \<and> v \<le> 1" by simp
  have 1: "hasShift (detectEmotionalShifts (sample Positive 0.99) four_results) = False"
    using detectEmotionalShifts_rule [where prev = four_results
        and cur = "sample Positive 0.99" and c = 0 and cs = "[]"] a l
    by (simp add: sample_def)
  have 2: "hasShift (detectEmotionalShifts (sample Negative 0.99) four_results) = True
     \<and> shift_intensity (detectEmotionalShifts (sample Negative 0.99) four_results) = Moderate"
    using detectEmotionalShifts_rule [where prev = four_results
        and cur = "sample Negative 0.99" and c = "0.99" and cs = "[0.8, 0.8, 0.8]"] a l m u
    by (auto simp: sample_def exact_diff_def classify_def)
  have 3: "shift_intensity (detectEmotionalShifts (sample Negative 0.45) four_results) = Dramatic"
    using detectEmotionalShifts_rule [where prev = four_results
        and cur = "sample Negative 0.45" and c = "0.45" and cs = "[0.8, 0.8, 0.8]"] a l m u
    by (auto simp: sample_def exact_diff_def classify_def)
  have 4: "shift_intensity (detectEmotionalShifts (sample Negative 0.49) four_results) = Dramatic"
    using detectEmotionalShifts_rule [where prev = four_results
        and cur = "sample Negative 0.49" and c = "0.49" and cs = "[0.8, 0.8, 0.8]"] a l m u
    by (auto simp: sample_def exact_diff_def)
  have 5: "shift_intensity (detectEmotionalShifts (sample Negative 0.6) four_results) = Moderate"
    using detectEmotionalShifts_rule [where prev = four_results
        and cur = "sample Negative 0.6" and c = "0.6" and cs = "[0.8, 0.8, 0.8]"] a l m u
    by (auto simp: sample_def exact_diff_def)
  have 6: "shift_intensity (detectEmotionalShifts (sample Negative 0.75) four_results) = Subtle"
    using detectEmotionalShifts_rule [where prev = four_results
        and cur = "sample Negative 0.75" and c = "0.75" and cs = "[0.8, 0.8, 0.8]"] a l m u
    by (auto simp: sample_def exact_diff_def)
  have 7: "shift_intensity (detectEmotionalShifts (sample Negative 0.9) [sample Positive 0.6])
       = Dramatic"
    using detectEmotionalShifts_rule [where prev = "[sample Positive 0.6]"
        and cur = "sample Negative 0.9" and c = 0 and cs = "[]"] boundary_differences(1)
    by (auto simp: sample_def slice_last_def)
  have 8: "shift_intensity (detectEmotionalShifts (sample Negative 0.75) [sample Positive 0.6])
       = Moderate"
    using detectEmotionalShifts_rule [where prev = "[sample Positive 0.6]"
        and cur = "sample Negative 0.75" and c = 0 and cs = "[]"] boundary_differences(2)
    by (auto simp: sample_def slice_last_def)
  have 9: "shift_intensity (detectEmotionalShifts (sample Negative 0.3) [sample Positive 0])
       = Moderate"
    using detectEmotionalShifts_rule [where prev = "[sample Positive 0]"
        and cur = "sample Negative 0.3" and c = 0 and cs = "[]"] boundary_differences(3)
    by (auto simp: sample_def slice_last_def)
  have 10: "shift_intensity (detectEmotionalShifts (sample Negative 0.15) [sample Positive 0])
       = Subtle"
    using detectEmotionalShifts_rule [where prev = "[sample Positive 0]"
        and cur = "sample Negative 0.15" and c = 0 and cs = "[]"] boundary_differences(4)
    by (auto simp: sample_def slice_last_def)
  from a 1 2 3 4 5 6 7 8 9 10 show ?thesis by simp
qed

lemma in_unit_clamp01_number: "in_unit (clamp01 env (JNumber r) (JNumber d))"
  by (simp add: clamp01_def js_or_def)

lemma range_safe_fallback: "range_safe (createFallbackSentiment text)"
  by (simp add: range_safe_def createFallbackSentiment_def Let_def)

text \<open>
  C10. \<open>analyzeSentiment\<close> always returns a result, but not always one in range: for the
  response \<^verbatim>\<open>{"confidence": {}}\<close> the value handed to \<open>Math.min\<close> is an object, its
  conversion to a number is \<open>NaN\<close>, and the returned confidence is \<open>NaN\<close>.
\<close>

theorem analyzeSentiment_confidence_NaN:
  "confidence (analyzeSentiment object_env (Content object_content) ''fine'') = NaN
   \<and> \<not> range_safe (analyzeSentiment object_env (Content object_content) ''fine'')"
  by (simp add: object_env_def plain_env_def parseSentimentResponse_def clamp01_def js_or_def
      range_safe_def Let_def)

theorem analyzeSentiment_confidence_NaN_witness:
  "\<not> in_unit (confidence (analyzeSentiment object_env (Content object_content) ''fine''))"
  using analyzeSentiment_confidence_NaN by simp

lemma range_safe_failure_paths:
  "outcome \<in> {NetworkError, HttpError, MissingContent} \<Longrightarrow>
   analyzeSentiment env outcome text = createFallbackSentiment text"
  by auto

lemma range_safe_unparsed:
  "match_and_parse env responseText = None \<Longrightarrow>
   analyzeSentiment env (Content responseText) text = createFallbackSentiment text"
  by (simp add: parseSentimentResponse_def)

lemma analyzeText_history_bound:
  "length (sentimentHistory (snd (analyzeText env settings hasClient outcome now text st)))
     \<le> max (length (sentimentHistory st)) 11"
  by (auto simp: analyzeText_def Let_def length_slice_last)

text \<open>
  C9. The history kept for shift comparison is not bounded by 10: an analysis on a history
  of ten results keeps all ten and appends the new one, which leaves eleven.
\<close>

theorem analyzeText_history_eleven:
  "length (sentimentHistory full_history) = 10
   \<and> length (sentimentHistory (snd (analyzeText plain_env
        \<lparr> enableRealTimeAnalysis = True, emotionalShiftAlerts = True \<rparr> True NetworkError 0
        ''fine'' full_history))) = 11"
  by (simp add: analyzeText_def full_history_def Let_def slice_last_def)

theorem analyzeText_history_eleven_witness:
  "\<not> length (sentimentHistory (snd (analyzeText plain_env
        \<lparr> enableRealTimeAnalysis = True, emotionalShiftAlerts = True \<rparr> True NetworkError 0
        ''fine'' full_history))) \<le> 10"
  using analyzeText_history_eleven by simp

lemma analyzeText_alerts_bound:
  "length (emotionalAlerts st) \<le> 5 \<Longrightarrow>
   length (emotionalAlerts (snd (analyzeText env settings hasClient outcome now text st))) \<le> 5"
  by (auto simp: analyzeText_def Let_def length_slice_last)

section \<open>Properties of the captions hook\<close>

subsection \<open>Final results\<close>

lemma find_rev_None: "find P (rev xs) = None \<longleftrightarrow> filter P xs = []"
  by (auto simp: find_None_iff filter_empty_conv)

lemma last_final_append: "last_final (xs @ [e]) = (if isFinal e then Some e else last_final xs)"
  by (simp add: last_final_def)

lemma last_final_all_final: "list_all isFinal xs \<Longrightarrow> xs \<noteq> [] \<Longrightarrow> last_final xs = Some (last xs)"
  by (induction xs rule: rev_induct) (simp_all add: last_final_def)

lemma last_final_filter: "last_final (filter isFinal xs) = last_final xs"
  by (induction xs rule: rev_induct) (simp_all add: last_final_def)

lemma last_final_finals:
  "filter isFinal xs \<noteq> [] \<Longrightarrow> last_final xs = Some (last (filter isFinal xs))"
  using last_final_all_final [of "filter isFinal xs"]
  by (simp add: list_all_iff last_final_filter)

lemma last_final_None: "filter isFinal xs = [] \<Longrightarrow> last_final xs = None"
  by (simp add: last_final_def find_rev_None)

lemma nth_last_index: "xs \<noteq> [] \<Longrightarrow> xs ! (length xs - Suc 0) = last xs"
  by (simp add: last_conv_nth)

lemma update_last_index: "xs \<noteq> [] \<Longrightarrow> xs [length xs - Suc 0 := y] = butlast xs @ [y]"
  by (induction xs rule: rev_induct) simp_all

lemma clear_pending_fields [simp]:
  "transcript (clear_pending s) = transcript s"
  "lastFinalRef (clear_pending s) = lastFinalRef s"
  "beginTimeRef (clear_pending s) = beginTimeRef s"
  "currentSession (clear_pending s) = currentSession s"
  "closureSession (clear_pending s) = closureSession s"
  "storage (clear_pending s) = storage s"
  "nextTimer (clear_pending s) = nextTimer s"
  by (simp_all add: clear_pending_def clearTimeout_def Let_def split: option.splits)

lemma transcript_merge_transcript:
  "transcript (merge_transcript now e s) =
     (if filter isFinal (transcript s) \<noteq> []
      then butlast (filter isFinal (transcript s)) @
           [(last (filter isFinal (transcript s)))
              \<lparr> entry_text := merge_text (entry_text (last (filter isFinal (transcript s)))) (entry_text e),
                endTime := endTime e, timestamp := now, isFinal := True \<rparr>]
      else filter isFinal (transcript s) @ [e])"
  by (simp add: merge_transcript_def append_transcript_def Let_def find_rev_None nth_last_index
      update_last_index)

lemma transcript_session_updates [simp]:
  "transcript (merge_session now e s) = transcript s"
  "lastFinalRef (merge_session now e s) = lastFinalRef s"
  "beginTimeRef (merge_session now e s) = beginTimeRef s"
  by (simp_all add: merge_session_def Let_def split: option.splits)

lemma on_final_queue:
  "snd (on_final now e s) =
     (if shouldMerge (lastFinalRef s) e
      then MergeTranscript e # (case closureSession s of None \<Rightarrow> [] | Some c \<Rightarrow> [MergeSession e])
      else AppendTranscript e #
           (case closureSession s of None \<Rightarrow> [] | Some c \<Rightarrow> [SetSession (updatedSession now e c)]))"
  by (simp add: on_final_def Let_def split: option.splits)

lemma transcript_fst_on_final [simp]: "transcript (fst (on_final now e s)) = transcript s"
  by (simp add: on_final_def Let_def split: option.splits)

text \<open>An event whose only slot is a final result.\<close>

lemma transcript_single_final:
  assumes "result_isFinal r"
  shows "transcript (onresult now 0 [r] s) =
     (if shouldMerge (lastFinalRef s) (baseEntry now s r) \<and> filter isFinal (transcript s) \<noteq> []
      then butlast (filter isFinal (transcript s)) @
           [(last (filter isFinal (transcript s)))
              \<lparr> entry_text := merge_text (entry_text (last (filter isFinal (transcript s))))
                                (entry_text (baseEntry now s r)),
                endTime := endTime (baseEntry now s r), timestamp := now, isFinal := True \<rparr>]
      else filter isFinal (transcript s) @ [baseEntry now s r])"
  using assms
  by (simp add: onresult_def process_result_def on_final_queue Let_def
      transcript_merge_transcript append_transcript_def split: option.splits)

text \<open>
  C1. An event that carries one final result merges or appends on the value the
  last-final reference has when the handler runs: \<open>shouldMerge\<close> holds exactly when the
  reference is set, the new text has at most 8 code units or at most 2 words, and the new
  entry's start time is at most 1500 ms after the reference's end time. If \<open>shouldMerge\<close>
  holds and the display sequence has a final entry, the last final entry of the sequence is
  rewritten in place and the sequence does not grow; otherwise the new entry is appended
  after the final entries. This is the decision of the specification only when the
  reference is the most recent final entry of the sequence.
\<close>

theorem final_result_reads_reference:
  assumes "result_isFinal r"
  shows "(shouldMerge (lastFinalRef s) (baseEntry now s r) \<longleftrightarrow>
            (\<exists>l. lastFinalRef s = Some l
               \<and> (length (entry_text (baseEntry now s r)) \<le> 8
                    \<or> length (split_spaces (entry_text (baseEntry now s r))) \<le> 2)
               \<and> startTime (baseEntry now s r) - endTime l \<le> 1500))
       \<and> (shouldMerge (lastFinalRef s) (baseEntry now s r)
             \<and> filter isFinal (transcript s) \<noteq> [] \<longrightarrow>
            transcript (onresult now 0 [r] s) =
              butlast (filter isFinal (transcript s)) @
              [(last (filter isFinal (transcript s)))
                 \<lparr> entry_text := merge_text (entry_text (last (filter isFinal (transcript s))))
                                   (entry_text (baseEntry now s r)),
                   endTime := endTime (baseEntry now s r),
                   timestamp := now,
                   isFinal := True \<rparr>]
            \<and> length (transcript (onresult now 0 [r] s)) \<le> length (transcript s))
       \<and> (\<not> (shouldMerge (lastFinalRef s) (baseEntry now s r)
               \<and> filter isFinal (transcript s) \<noteq> []) \<longrightarrow>
            transcript (onresult now 0 [r] s)
              = filter isFinal (transcript s) @ [baseEntry now s r])
       \<and> (lastFinalRef s = last_final (transcript s) \<longrightarrow>
            (shouldMerge (lastFinalRef s) (baseEntry now s r)
               \<and> filter isFinal (transcript s) \<noteq> [])
             = spec_shouldMerge (transcript s) (baseEntry now s r))"
proof -
  let ?e = "baseEntry now s r"
  let ?fs = "filter isFinal (transcript s)"
  note pr = transcript_single_final [OF assms, of now s]
  have a: "shouldMerge (lastFinalRef s) ?e \<longleftrightarrow>
            (\<exists>l. lastFinalRef s = Some l
               \<and> (length (entry_text ?e) \<le> 8 \<or> length (split_spaces (entry_text ?e)) \<le> 2)
               \<and> startTime ?e - endTime l \<le> 1500)"
    by (cases "lastFinalRef s") (simp_all add: shouldMerge_def Let_def)
  have len: "length (butlast ?fs @ [x]) \<le> length (transcript s)" if "?fs \<noteq> []" for x
  proof -
    have "length (butlast ?fs @ [x]) = length ?fs" using that by (cases ?fs rule: rev_cases) simp_all
    then show ?thesis by simp
  qed
  have b: "shouldMerge (lastFinalRef s) ?e \<and> ?fs \<noteq> [] \<longrightarrow>
            transcript (onresult now 0 [r] s) =
              butlast ?fs @
              [(last ?fs) \<lparr> entry_text := merge_text (entry_text (last ?fs)) (entry_text ?e),
                   endTime := endTime ?e, timestamp := now, isFinal := True \<rparr>]
            \<and> length (transcript (onresult now 0 [r] s)) \<le> length (transcript s)"
    using len by (simp add: pr del: length_append)
  have c: "\<not> (shouldMerge (lastFinalRef s) ?e \<and> ?fs \<noteq> []) \<longrightarrow>
            transcript (onresult now 0 [r] s) = ?fs @ [?e]"
    by (simp add: pr)
  have d: "lastFinalRef s = last_final (transcript s) \<longrightarrow>
            (shouldMerge (lastFinalRef s) ?e \<and> ?fs \<noteq> []) = spec_shouldMerge (transcript s) ?e"
  proof (cases "?fs = []")
    case True
    then show ?thesis
      by (simp add: spec_shouldMerge_def last_final_None shouldMerge_def)
  next
    case False
    then show ?thesis
      by (simp add: spec_shouldMerge_def last_final_finals shouldMerge_def Let_def)
  qed
  from a b c d show ?thesis by blast
qed

subsection \<open>Invariants of recognition events\<close>

lemma fold_invariant:
  "(\<And>x s. P s \<Longrightarrow> P (f x s)) \<Longrightarrow> P s \<Longrightarrow> P (fold f xs s)"
  by (induction xs arbitrary: s) simp_all

lemma interim_only_at_tail_snoc: "list_all isFinal xs \<Longrightarrow> interim_only_at_tail (xs @ [e])"
  by (simp add: interim_only_at_tail_def)

lemma interim_only_at_tail_finals: "interim_only_at_tail (filter isFinal xs @ [e])"
  by (simp add: interim_only_at_tail_def list_all_iff)

lemma interim_only_at_tail_merge:
  "interim_only_at_tail (butlast (filter isFinal xs) @ [e])"
  by (auto simp: interim_only_at_tail_def list_all_iff dest: in_set_butlastD)

lemma transcript_on_interim [simp]: "transcript (on_interim now e s) = transcript s"
  by (simp add: on_interim_def Let_def)

lemma transcript_process_result [simp]:
  "transcript (fst (process_result now r sq)) = transcript (fst sq)"
  by (simp add: process_result_def)

lemma transcript_handled:
  "transcript (fst (fold (process_result now) rs sq)) = transcript (fst sq)"
  by (induction rs arbitrary: sq) simp_all

lemma interim_only_at_tail_single: "interim_only_at_tail [e]"
  by (simp add: interim_only_at_tail_def)

lemma tail_apply_update:
  "interim_only_at_tail (transcript s) \<Longrightarrow>
   interim_only_at_tail (transcript (apply_update now u s))"
  by (cases u)
     (simp_all add: transcript_merge_transcript append_transcript_def
        interim_only_at_tail_finals interim_only_at_tail_merge interim_only_at_tail_single)

lemma tail_onresult:
  assumes "interim_only_at_tail (transcript s)"
  shows "interim_only_at_tail (transcript (onresult now i rs s))"
proof -
  have "interim_only_at_tail (transcript (fst (fold (process_result now) (drop i rs) (s, []))))"
    using assms by (simp add: transcript_handled)
  then show ?thesis
    unfolding onresult_def Let_def
    by (rule fold_invariant [where P = "\<lambda>s. interim_only_at_tail (transcript s)", rotated])
       (rule tail_apply_update)
qed

lemma tail_interim_timeout:
  "interim_only_at_tail (transcript s) \<Longrightarrow> interim_only_at_tail (transcript (interim_timeout s))"
  by (simp add: interim_timeout_def interim_only_at_tail_finals split: option.splits)

lemma transcript_clearTimeout [simp]: "transcript (clearTimeout h s) = transcript s"
  by (simp add: clearTimeout_def)

lemma tail_step:
  "interim_only_at_tail (transcript s) \<Longrightarrow> interim_only_at_tail (transcript (step ev s))"
proof (cases ev)
  case (OnResult now i rs)
  assume "interim_only_at_tail (transcript s)"
  with OnResult show ?thesis by (simp add: tail_onresult)
next
  case (TimerFires h)
  assume "interim_only_at_tail (transcript s)"
  with TimerFires show ?thesis
    using tail_interim_timeout [of "clearTimeout h s"] by (simp add: fire_timer_def)
qed

lemma tail_run_events:
  assumes "interim_only_at_tail (transcript s)"
  shows "interim_only_at_tail (transcript (run_events evs s))"
  unfolding run_events_def using assms
  by (rule fold_invariant [where P = "\<lambda>s. interim_only_at_tail (transcript s)", rotated])
     (rule tail_step)

lemma at_most_one_interim:
  "interim_only_at_tail xs \<Longrightarrow> length (filter (\<lambda>e. \<not> isFinal e) xs) \<le> 1"
proof (cases xs rule: rev_cases)
  case Nil
  then show ?thesis by simp
next
  case (snoc ys y)
  assume "interim_only_at_tail xs"
  with snoc have "list_all isFinal ys" by (simp add: interim_only_at_tail_def)
  then have "filter (\<lambda>e. \<not> isFinal e) ys = []" by (simp add: list_all_iff filter_empty_conv)
  with snoc show ?thesis by simp
qed

text \<open>Interim results and time-outs leave the session and the store alone.\<close>

lemma session_on_interim [simp]:
  "currentSession (on_interim now e s) = currentSession s"
  "storage (on_interim now e s) = storage s"
  "closureSession (on_interim now e s) = closureSession s"
  by (simp_all add: on_interim_def Let_def)

lemma session_interim_timeout [simp]:
  "currentSession (interim_timeout s) = currentSession s"
  "storage (interim_timeout s) = storage s"
  "closureSession (interim_timeout s) = closureSession s"
  by (simp_all add: interim_timeout_def split: option.splits)

lemma session_clearTimeout [simp]:
  "currentSession (clearTimeout h s) = currentSession s"
  "storage (clearTimeout h s) = storage s"
  "closureSession (clearTimeout h s) = closureSession s"
  by (simp_all add: clearTimeout_def)

lemma session_interim_slots:
  "list_all (\<lambda>r. \<not> result_isFinal r) rs \<Longrightarrow>
   snd (fold (process_result now) rs sq) = snd sq
   \<and> currentSession (fst (fold (process_result now) rs sq)) = currentSession (fst sq)
   \<and> storage (fst (fold (process_result now) rs sq)) = storage (fst sq)"
  by (induction rs arbitrary: sq) (simp_all add: process_result_def)

lemma session_interim_step:
  "interim_event ev \<Longrightarrow>
   currentSession (step ev s) = currentSession s \<and> storage (step ev s) = storage s"
  by (cases ev) (simp_all add: onresult_def Let_def session_interim_slots fire_timer_def)

lemma session_interim_run:
  "list_all interim_event evs \<Longrightarrow>
   currentSession (run_events evs s) = currentSession s
   \<and> storage (run_events evs s) = storage s"
  unfolding run_events_def
  by (induction evs arbitrary: s) (simp_all add: session_interim_step)

text \<open>Only final entries reach a session.\<close>

lemma session_final_saveSession:
  "list_all session_final store \<Longrightarrow> session_final c \<Longrightarrow> list_all session_final (saveSession store c)"
  by (auto simp: saveSession_def list_all_iff)

lemma list_all_update_last:
  "list_all P t \<Longrightarrow> P y \<Longrightarrow> list_all P (t [n := y])"
  by (auto simp: list_all_iff dest: set_update_subset_insert [THEN subsetD])

lemma sessions_final_merge_session:
  "sessions_final s \<Longrightarrow> isFinal e \<Longrightarrow> sessions_final (merge_session now e s)"
proof -
  assume inv: "sessions_final s" and fin: "isFinal e"
  show ?thesis
  proof (cases "currentSession s")
    case None
    with inv show ?thesis by (simp add: merge_session_def)
  next
    case (Some p)
    let ?t = "session_transcript p"
    let ?t' = "(if length ?t > 0
                then ?t [length ?t - 1 := (?t ! (length ?t - 1))
                        \<lparr> entry_text := merge_text (entry_text (?t ! (length ?t - 1))) (entry_text e),
                          endTime := endTime e \<rparr>]
                else ?t @ [e])"
    from inv Some have pt: "list_all isFinal ?t" by (simp add: sessions_final_def session_final_def)
    have "list_all isFinal ?t'"
    proof (cases "length ?t > 0")
      case True
      then have "isFinal (?t ! (length ?t - 1))" using pt by (simp add: list_all_length)
      with True pt show ?thesis by (simp add: list_all_update_last)
    next
      case False
      with pt fin show ?thesis by simp
    qed
    then have sf: "session_final (p \<lparr> session_transcript := ?t', session_endTime := now \<rparr>)"
      by (simp add: session_final_def)
    from inv have st: "list_all session_final (storage s)"
      and cl: "(case closureSession s of None \<Rightarrow> True | Some c \<Rightarrow> session_final c)"
      by (simp_all add: sessions_final_def)
    from session_final_saveSession [OF st sf] sf cl Some
    show ?thesis
      by (simp add: merge_session_def Let_def sessions_final_def)
  qed
qed

lemma sessions_final_cong:
  "currentSession s' = currentSession s \<Longrightarrow> closureSession s' = closureSession s \<Longrightarrow>
   storage s' = storage s \<Longrightarrow> sessions_final s' = sessions_final s"
  by (simp add: sessions_final_def)

lemma session_final_updatedSession:
  "session_final c \<Longrightarrow> isFinal e \<Longrightarrow> session_final (updatedSession now e c)"
  by (simp add: session_final_def updatedSession_def)

lemma handled_on_final:
  assumes "sessions_final s" and "isFinal e"
  shows "sessions_final (fst (on_final now e s)) \<and> list_all final_update (snd (on_final now e s))"
proof (cases "closureSession s")
  case None
  have "sessions_final (clear_pending s)"
    using assms(1) by (simp add: sessions_final_cong [of "clear_pending s" s])
  with None assms(2) show ?thesis by (simp add: on_final_def Let_def)
next
  case (Some c)
  from assms(1) Some have c: "session_final c" and st: "list_all session_final (storage s)"
    and cur: "(case currentSession s of None \<Rightarrow> True | Some c \<Rightarrow> session_final c)"
    by (simp_all add: sessions_final_def)
  have u: "session_final (updatedSession now e c)"
    using c assms(2) by (rule session_final_updatedSession)
  from session_final_saveSession [OF st u] u c cur st Some assms(2) show ?thesis
    by (simp add: on_final_def Let_def sessions_final_def)
qed

lemma handled_process_result:
  assumes "sessions_final (fst sq) \<and> list_all final_update (snd sq)"
  shows "sessions_final (fst (process_result now r sq))
       \<and> list_all final_update (snd (process_result now r sq))"
proof (cases "result_isFinal r")
  case True
  then have "isFinal (baseEntry now (fst sq) r)" by (simp add: baseEntry_def)
  with assms have "sessions_final (fst (on_final now (baseEntry now (fst sq) r) (fst sq)))
       \<and> list_all final_update (snd (on_final now (baseEntry now (fst sq) r) (fst sq)))"
    by (simp add: handled_on_final)
  with True assms show ?thesis by (simp add: process_result_def)
next
  case False
  with assms show ?thesis
    by (simp add: process_result_def
        sessions_final_cong [of "on_interim now (baseEntry now (fst sq) r) (fst sq)" "fst sq"])
qed

lemma sessions_final_apply_update:
  assumes "sessions_final s" and "final_update u"
  shows "sessions_final (apply_update now u s)"
proof (cases u)
  case (AppendTranscript e)
  with assms(1) show ?thesis by (simp add: sessions_final_def append_transcript_def)
next
  case (MergeTranscript e)
  with assms(1) show ?thesis
    by (simp add: sessions_final_def merge_transcript_def append_transcript_def Let_def)
next
  case (MergeSession e)
  with assms show ?thesis by (simp add: sessions_final_merge_session)
next
  case (SetSession c)
  with assms show ?thesis by (simp add: sessions_final_def)
qed

lemma sessions_final_flush:
  "sessions_final s \<Longrightarrow> list_all final_update q \<Longrightarrow>
   sessions_final (fold (apply_update now) q s)"
  by (induction q arbitrary: s) (simp_all add: sessions_final_apply_update)

lemma sessions_final_onresult:
  assumes "sessions_final s"
  shows "sessions_final (onresult now i rs s)"
proof -
  have "sessions_final (fst (s, [])) \<and> list_all final_update (snd (s, []))"
    using assms by simp
  then have "sessions_final (fst (fold (process_result now) (drop i rs) (s, [])))
       \<and> list_all final_update (snd (fold (process_result now) (drop i rs) (s, [])))"
    by (rule fold_invariant
          [where P = "\<lambda>sq. sessions_final (fst sq) \<and> list_all final_update (snd sq)", rotated])
       (rule handled_process_result)
  then show ?thesis by (simp add: onresult_def Let_def sessions_final_flush)
qed

lemma sessions_final_step: "sessions_final s \<Longrightarrow> sessions_final (step ev s)"
proof (cases ev)
  case (OnResult now i rs)
  assume "sessions_final s"
  with OnResult show ?thesis by (simp add: sessions_final_onresult)
next
  case (TimerFires h)
  assume "sessions_final s"
  with TimerFires show ?thesis
    by (simp add: fire_timer_def sessions_final_cong [of "interim_timeout (clearTimeout h s)" s])
qed

lemma sessions_final_run_events:
  assumes "sessions_final s"
  shows "sessions_final (run_events evs s)"
  unfolding run_events_def using assms
  by (rule fold_invariant [where P = sessions_final, rotated]) (rule sessions_final_step)

text \<open>
  C2. Along every sequence of recognition events the live display sequence has every entry
  before its tail final, hence at most one entry that is not final, and every entry of a
  session (the active one, the one the handlers see, the stored ones) is final. A sequence
  of interim results and time-outs leaves the active session and the store as they were, so
  a session that starts with no entries still has none.
\<close>

theorem interim_never_persisted:
  assumes "interim_only_at_tail (transcript s)" and "sessions_final s"
  shows "interim_only_at_tail (transcript (run_events evs s))
       \<and> length (filter (\<lambda>e. \<not> isFinal e) (transcript (run_events evs s))) \<le> 1
       \<and> sessions_final (run_events evs s)
       \<and> (list_all interim_event evs \<longrightarrow>
            currentSession (run_events evs s) = currentSession s
            \<and> storage (run_events evs s) = storage s)"
proof -
  have t: "interim_only_at_tail (transcript (run_events evs s))"
    using assms(1) by (rule tail_run_events)
  have n: "length (filter (\<lambda>e. \<not> isFinal e) (transcript (run_events evs s))) \<le> 1"
    using t by (rule at_most_one_interim)
  have f: "sessions_final (run_events evs s)"
    using assms(2) by (rule sessions_final_run_events)
  from t n f session_interim_run [of evs s] show ?thesis by blast
qed

subsection \<open>The interim time-out\<close>

lemma one_timer_on_interim: "one_timer s \<Longrightarrow> one_timer (on_interim now e s)"
  by (cases "interimTimerRef s") (simp_all add: one_timer_def on_interim_def Let_def)

lemma one_timer_clear_pending:
  "one_timer s \<Longrightarrow> timers (clear_pending s) = [] \<and> interimTimerRef (clear_pending s) = None"
  by (auto simp: one_timer_def clear_pending_def clearTimeout_def Let_def
      split: option.splits list.splits)

lemma one_timer_on_final: "one_timer s \<Longrightarrow> one_timer (fst (on_final now e s))"
  using one_timer_clear_pending [of s]
  by (simp add: on_final_def Let_def one_timer_def split: option.splits)

lemma one_timer_process_result:
  "one_timer (fst sq) \<Longrightarrow> one_timer (fst (process_result now r sq))"
  by (simp add: process_result_def one_timer_on_interim one_timer_on_final)

lemma timers_apply_update [simp]:
  "timers (apply_update now u s) = timers s"
  "interimTimerRef (apply_update now u s) = interimTimerRef s"
  by (cases u; simp add: merge_transcript_def append_transcript_def merge_session_def Let_def
      split: option.splits)+

lemma timers_flush:
  "timers (fold (apply_update now) q s) = timers s
   \<and> interimTimerRef (fold (apply_update now) q s) = interimTimerRef s"
  by (induction q arbitrary: s) simp_all

lemma one_timer_cong:
  "timers s' = timers s \<Longrightarrow> interimTimerRef s' = interimTimerRef s \<Longrightarrow>
   one_timer s' = one_timer s"
  by (simp add: one_timer_def split: option.splits)

lemma one_timer_flush: "one_timer (fold (apply_update now) q s) = one_timer s"
  by (rule one_timer_cong) (simp_all add: timers_flush)

lemma one_timer_onresult:
  assumes "one_timer s"
  shows "one_timer (onresult now i rs s)"
proof -
  have "one_timer (fst (s, []))" using assms by simp
  then have "one_timer (fst (fold (process_result now) (drop i rs) (s, [])))"
    by (rule fold_invariant [where P = "\<lambda>sq. one_timer (fst sq)", rotated])
       (rule one_timer_process_result)
  then show ?thesis by (simp add: onresult_def Let_def one_timer_flush)
qed

lemma one_timer_fire_timer: "one_timer s \<Longrightarrow> one_timer (fire_timer h s)"
  by (auto simp: fire_timer_def one_timer_def interim_timeout_def clearTimeout_def
      split: option.splits list.splits)

lemma one_timer_fire_due: "one_timer (fst sl) \<Longrightarrow> one_timer (fst (fire_due t sl))"
proof -
  assume inv: "one_timer (fst sl)"
  obtain s out where sl: "sl = (s, out)" by (cases sl)
  show ?thesis
  proof (cases "interimTimerRef s")
    case None
    with inv sl show ?thesis by (simp add: one_timer_def fire_due_def)
  next
    case (Some h)
    with inv sl obtain due where t: "timers s = [(h, due)]"
      by (auto simp: one_timer_def split: list.splits)
    with sl Some show ?thesis
      by (auto simp: fire_due_def one_timer_def interim_timeout_def clearTimeout_def
          split: option.splits)
  qed
qed

lemma one_timer_run_timed: "one_timer (fst sl) \<Longrightarrow> one_timer (fst (run_timed evs sl))"
proof (induction evs arbitrary: sl)
  case Nil
  then show ?case by simp
next
  case (Cons ev evs)
  obtain t i rs where ev: "ev = (t, i, rs)" by (cases ev)
  from Cons.prems have "one_timer (fst (fire_due t sl))" by (rule one_timer_fire_due)
  then have "one_timer (onresult t i rs (fst (fire_due t sl)))" by (rule one_timer_onresult)
  then have "one_timer (fst (onresult t i rs (fst (fire_due t sl)), snd (fire_due t sl)))"
    by simp
  from Cons.IH [OF this] ev show ?case by simp
qed

lemma one_timer_length: "one_timer s \<Longrightarrow> length (timers s) \<le> 1"
  by (auto simp: one_timer_def split: option.splits list.splits)

text \<open>Interim slots while a time-out is in flight only replace the buffer.\<close>

lemma baseEntry_pending [simp]:
  "baseEntry now (s \<lparr> pendingInterimRef := p \<rparr>) r = baseEntry now s r"
  by (simp add: baseEntry_def)

lemma interim_slots_in_flight:
  "interimTimerRef s = Some h \<Longrightarrow> list_all (\<lambda>r. \<not> result_isFinal r) rs \<Longrightarrow>
   fold (process_result now) rs (s, q) =
     (s \<lparr> pendingInterimRef :=
            (if rs = [] then pendingInterimRef s else Some (baseEntry now s (last rs))) \<rparr>, q)"
proof (induction rs arbitrary: s)
  case Nil
  then show ?case by simp
next
  case (Cons r rs)
  let ?s1 = "s \<lparr> pendingInterimRef := Some (baseEntry now s r) \<rparr>"
  from Cons.prems have one: "process_result now r (s, q) = (?s1, q)"
    by (simp add: process_result_def on_interim_def Let_def)
  from Cons.prems have "interimTimerRef ?s1 = Some h" "list_all (\<lambda>r. \<not> result_isFinal r) rs"
    by simp_all
  from Cons.IH [OF this] one show ?case by simp
qed

lemma interim_slots_first:
  assumes "interimTimerRef s = None" and "rs \<noteq> []"
    and "list_all (\<lambda>r. \<not> result_isFinal r) rs"
  shows "fold (process_result now) rs (s, q) =
     (s \<lparr> pendingInterimRef := Some (baseEntry now s (last rs)),
          timers := timers s @ [(nextTimer s, now + 120)],
          interimTimerRef := Some (nextTimer s),
          nextTimer := Suc (nextTimer s) \<rparr>, q)"
proof -
  from assms(2) obtain r rs' where rs: "rs = r # rs'" by (cases rs) auto
  let ?s1 = "s \<lparr> pendingInterimRef := Some (baseEntry now s r),
                  timers := timers s @ [(nextTimer s, now + 120)],
                  interimTimerRef := Some (nextTimer s),
                  nextTimer := Suc (nextTimer s) \<rparr>"
  from assms rs have one: "process_result now r (s, q) = (?s1, q)"
    by (simp add: process_result_def on_interim_def Let_def)
  have b: "baseEntry now ?s1 x = baseEntry now s x" for x by (simp add: baseEntry_def)
  from assms(3) rs have "list_all (\<lambda>r. \<not> result_isFinal r) rs'" by simp
  from interim_slots_in_flight [of ?s1 "nextTimer s" rs' now q, OF _ this] one rs b
  show ?thesis by simp
qed

lemma fire_due_none:
  "timers s = [(h, due)] \<Longrightarrow> t < due \<Longrightarrow> fire_due t (s, out) = (s, out)"
  by (simp add: fire_due_def)

lemma fire_due_one:
  "timers s = [(h, due)] \<Longrightarrow> due \<le> t \<Longrightarrow> pendingInterimRef s = Some e \<Longrightarrow>
   snd (fire_due t (s, out)) = out @ [filter isFinal (transcript s) @ [e]]
   \<and> transcript (fst (fire_due t (s, out))) = filter isFinal (transcript s) @ [e]"
  by (simp add: fire_due_def interim_timeout_def clearTimeout_def)

lemma run_timed_in_flight:
  assumes "interimTimerRef s = Some h" and "timers s = [(h, due)]"
    and "\<forall>ev \<in> set evs. fst ev < due \<and> drop (fst (snd ev)) (snd (snd ev)) \<noteq> []
           \<and> list_all (\<lambda>r. \<not> result_isFinal r) (drop (fst (snd ev)) (snd (snd ev)))"
  shows "run_timed evs (s, out) =
     (s \<lparr> pendingInterimRef :=
            (if evs = [] then pendingInterimRef s
             else Some (baseEntry (fst (last evs)) s
                          (last (drop (fst (snd (last evs))) (snd (snd (last evs))))))) \<rparr>, out)"
  using assms
proof (induction evs arbitrary: s)
  case Nil
  then show ?case by simp
next
  case (Cons ev evs)
  obtain t i rs where ev: "ev = (t, i, rs)" by (cases ev)
  from Cons.prems ev have t: "t < due" and ne: "drop i rs \<noteq> []"
    and ai: "list_all (\<lambda>r. \<not> result_isFinal r) (drop i rs)" by simp_all
  let ?s1 = "s \<lparr> pendingInterimRef := Some (baseEntry t s (last (drop i rs))) \<rparr>"
  from Cons.prems(2) t have f: "fire_due t (s, out) = (s, out)" by (rule fire_due_none)
  from interim_slots_in_flight [OF Cons.prems(1) ai, of t "[]"] ne
  have o: "onresult t i rs s = ?s1" by (simp add: onresult_def)
  have 1: "interimTimerRef ?s1 = Some h" using Cons.prems(1) by simp
  have 2: "timers ?s1 = [(h, due)]" using Cons.prems(2) by simp
  have 3: "\<forall>ev \<in> set evs. fst ev < due \<and> drop (fst (snd ev)) (snd (snd ev)) \<noteq> []
           \<and> list_all (\<lambda>r. \<not> result_isFinal r) (drop (fst (snd ev)) (snd (snd ev)))"
    using Cons.prems(3) by simp
  from Cons.IH [OF 1 2 3] ev f o show ?case by simp
qed

text \<open>The state after a run of interim results that all arrive before the time-out is due.\<close>

lemma interim_run_state:
  assumes "timers s = []" and "interimTimerRef s = None" and "evs \<noteq> []"
    and "\<forall>ev \<in> set evs. fst ev < fst (hd evs) + 120
           \<and> drop (fst (snd ev)) (snd (snd ev)) \<noteq> []
           \<and> list_all (\<lambda>r. \<not> result_isFinal r) (drop (fst (snd ev)) (snd (snd ev)))"
  shows "run_timed evs (s, []) =
     (s \<lparr> pendingInterimRef :=
            Some (baseEntry (fst (last evs)) s
                    (last (drop (fst (snd (last evs))) (snd (snd (last evs)))))),
          timers := [(nextTimer s, fst (hd evs) + 120)],
          interimTimerRef := Some (nextTimer s),
          nextTimer := Suc (nextTimer s) \<rparr>, [])"
proof -
  from assms(3) obtain ev rest where evs: "evs = ev # rest" by (cases evs) auto
  obtain t0 i0 rs0 where ev: "ev = (t0, i0, rs0)" by (cases ev)
  from assms(4) evs ev have ne0: "drop i0 rs0 \<noteq> []"
    and ai0: "list_all (\<lambda>r. \<not> result_isFinal r) (drop i0 rs0)" by simp_all
  let ?s1 = "s \<lparr> pendingInterimRef := Some (baseEntry t0 s (last (drop i0 rs0))),
                  timers := timers s @ [(nextTimer s, t0 + 120)],
                  interimTimerRef := Some (nextTimer s),
                  nextTimer := Suc (nextTimer s) \<rparr>"
  have f0: "fire_due t0 (s, []) = (s, [])" using assms(1) by (simp add: fire_due_def)
  have o0: "onresult t0 i0 rs0 s = ?s1"
    using interim_slots_first [OF assms(2) ne0 ai0, of t0 "[]"] by (simp add: onresult_def)
  have 1: "interimTimerRef ?s1 = Some (nextTimer s)" by simp
  have 2: "timers ?s1 = [(nextTimer s, t0 + 120)]" using assms(1) by simp
  have 3: "\<forall>ev \<in> set rest. fst ev < t0 + 120 \<and> drop (fst (snd ev)) (snd (snd ev)) \<noteq> []
           \<and> list_all (\<lambda>r. \<not> result_isFinal r) (drop (fst (snd ev)) (snd (snd ev)))"
    using assms(4) evs ev by simp
  have b: "baseEntry t ?s1 x = baseEntry t s x" for t x by (simp add: baseEntry_def)
  from run_timed_in_flight [OF 1 2 3, of "[]"] evs ev f0 o0 b assms(1)
  show ?thesis by simp
qed

text \<open>
  C3 (as amended). The interim time-out is a throttle. Starting with no time-out in flight,
  a run of interim results that all arrive less than 120 ms after the first of them changes
  the display exactly once, when the time-out fires: the display then is its final entries
  followed by the last interim of the run, and it is untouched at every point of the run
  before. The time-out is set by the first interim and stays due 120 ms after it: later
  interims replace the buffered entry and do not reschedule it. At most one time-out is in
  flight at any point of the run.
\<close>

theorem interim_run_throttled:
  assumes "timers s = []" and "interimTimerRef s = None"
    and "evs \<noteq> []"
    and "sorted (map fst evs)"
    and "\<forall>ev \<in> set evs. fst ev < fst (hd evs) + 120
           \<and> drop (fst (snd ev)) (snd (snd ev)) \<noteq> []
           \<and> list_all (\<lambda>r. \<not> result_isFinal r) (drop (fst (snd ev)) (snd (snd ev)))"
    and "fst (hd evs) + 120 \<le> T"
  shows "snd (fire_due T (run_timed evs (s, []))) =
           [filter isFinal (transcript s) @
            [baseEntry (fst (last evs)) s
               (last (drop (fst (snd (last evs))) (snd (snd (last evs)))))]]
       \<and> transcript (fst (fire_due T (run_timed evs (s, [])))) =
           filter isFinal (transcript s) @
           [baseEntry (fst (last evs)) s
              (last (drop (fst (snd (last evs))) (snd (snd (last evs)))))]
       \<and> (\<forall>n. transcript (fst (run_timed (take n evs) (s, []))) = transcript s
              \<and> snd (run_timed (take n evs) (s, [])) = [])
       \<and> timers (fst (run_timed evs (s, []))) = [(nextTimer s, fst (hd evs) + 120)]
       \<and> (\<forall>n. length (timers (fst (run_timed (take n evs) (s, [])))) \<le> 1)"
proof -
  let ?e = "baseEntry (fst (last evs)) s
              (last (drop (fst (snd (last evs))) (snd (snd (last evs)))))"
  let ?s1 = "s \<lparr> pendingInterimRef := Some ?e,
                  timers := [(nextTimer s, fst (hd evs) + 120)],
                  interimTimerRef := Some (nextTimer s),
                  nextTimer := Suc (nextTimer s) \<rparr>"
  have r: "run_timed evs (s, []) = (?s1, [])"
    using assms(1,2,3,5) by (rule interim_run_state)
  have tm: "timers ?s1 = [(nextTimer s, fst (hd evs) + 120)]" by simp
  have pe: "pendingInterimRef ?s1 = Some ?e" by simp
  from fire_due_one [OF tm assms(6) pe, of "[]"]
  have a: "snd (fire_due T (run_timed evs (s, []))) = [filter isFinal (transcript s) @ [?e]]"
    and b: "transcript (fst (fire_due T (run_timed evs (s, [])))) =
              filter isFinal (transcript s) @ [?e]"
    by (simp_all add: r)
  have c: "transcript (fst (run_timed (take n evs) (s, []))) = transcript s
              \<and> snd (run_timed (take n evs) (s, [])) = []" for n
  proof (cases "take n evs = []")
    case True
    show ?thesis unfolding True by simp
  next
    case False
    then have n: "0 < n" by (cases n) simp_all
    with assms(3) have hd: "hd (take n evs) = hd evs" by (cases evs) simp_all
    have "\<forall>ev \<in> set (take n evs). fst ev < fst (hd (take n evs)) + 120
           \<and> drop (fst (snd ev)) (snd (snd ev)) \<noteq> []
           \<and> list_all (\<lambda>r. \<not> result_isFinal r) (drop (fst (snd ev)) (snd (snd ev)))"
      unfolding hd using assms(5) by (auto dest: in_set_takeD)
    from interim_run_state [OF assms(1,2) False this] show ?thesis by simp
  qed
  have d: "timers (fst (run_timed evs (s, []))) = [(nextTimer s, fst (hd evs) + 120)]"
    using r by simp
  have o: "one_timer (fst (s, []))" using assms(1,2) by (simp add: one_timer_def)
  have e: "length (timers (fst (run_timed (take n evs) (s, [])))) \<le> 1" for n
    using one_timer_run_timed [OF o, of "take n evs"] by (rule one_timer_length)
  from a b c d e show ?thesis by blast
qed

subsection \<open>The concrete runs, evaluated\<close>

lemma trim_words: "trim ''hello'' = ''hello''" "trim ''world'' = ''world''" "trim ''okay'' = ''okay''"
  "trim ''hello everyone and welcome'' = ''hello everyone and welcome''"
  "trim ''he'' = ''he''" "trim ''hell'' = ''hell''" "trim ''wo'' = ''wo''" "trim ''wor'' = ''wor''"
  by (simp_all add: trim_def isSpace_def)

lemma listening_eval:
  "listening = \<lparr> isListening = True, transcript = [],
     currentSession = Some (newSession https_granted ''en-US'' 90000), error = None,
     sessions = [stored_session], recognitionRef = True, storage = [stored_session],
     beginTimeRef = Some 90000, interimTimerRef = None, pendingInterimRef = None,
     lastFinalRef = None, closureSession = None, timers = [], nextTimer = 1 \<rparr>"
  by (simp add: listening_def recognition_onstart_def startListening_def run_effect_def
      load_sessions_def initial_hook_def chrome_def https_granted_def Let_def)

lemma after_hello_eval:
  "after_hello = listening \<lparr> transcript := [hello_entry], beginTimeRef := Some 95000,
     lastFinalRef := Some hello_entry \<rparr>"
  by (simp add: after_hello_def listening_eval onresult_def process_result_def on_final_def
      clear_pending_def baseEntry_def final_result_def shouldMerge_def append_transcript_def
      hello_entry_def trim_words Let_def)

lemma world_entry:
  "baseEntry 95300 after_hello (final_result ''world'') =
     \<lparr> entry_text = ''world'', timestamp = 95300, startTime = 95000, endTime = 95300,
       entry_confidence = Some 0.9, isFinal = True, speaker = ''User'' \<rparr>"
  by (simp add: baseEntry_def after_hello_eval listening_eval final_result_def trim_words)

lemma merge_text_hello_world: "merge_text ''hello'' ''world'' = ''hello world''"
  by (simp add: merge_text_def collapse_spaces_def trim_def isSpace_def)

lemma after_load_eval:
  "transcript after_load = session_transcript stored_session
   \<and> lastFinalRef after_load = Some \<lparr> entry_text = ''hello everyone and welcome'',
        timestamp = 95000, startTime = 90000, endTime = 95000, entry_confidence = Some 0.9,
        isFinal = True, speaker = ''User'' \<rparr>
   \<and> beginTimeRef after_load = Some 95000"
  by (simp add: after_load_def loadSession_def getSession_def listening_eval onresult_def
      process_result_def on_final_def clear_pending_def baseEntry_def final_result_def
      shouldMerge_def append_transcript_def trim_words Let_def stored_session_def)

lemma okay_entry:
  "baseEntry 95400 after_load (final_result ''okay'') =
     \<lparr> entry_text = ''okay'', timestamp = 95400, startTime = 95000, endTime = 95400,
       entry_confidence = Some 0.9, isFinal = True, speaker = ''User'' \<rparr>"
  by (simp add: baseEntry_def after_load_eval final_result_def trim_words)

lemma merge_text_okay: "merge_text ''see you tomorrow'' ''okay'' = ''see you tomorrow okay''"
  by (simp add: merge_text_def collapse_spaces_def trim_def isSpace_def)

text \<open>
  The failing run: a long utterance becomes final at 95000, the stored session (whose only
  entry ended at 1000) is loaded into the display, and ``okay'' becomes final at 95400. The
  reference still holds the long utterance, so the fragment is merged into the stored
  entry, which ended 94000 ms before the fragment started.
\<close>

theorem final_result_reads_reference_witness:
  "result_isFinal (final_result ''okay'')
   \<and> lastFinalRef after_load \<noteq> last_final (transcript after_load)
   \<and> last_final (transcript after_load) = Some (hd (session_transcript stored_session))
   \<and> startTime (baseEntry 95400 after_load (final_result ''okay''))
       - endTime (hd (session_transcript stored_session)) = 94000
   \<and> \<not> spec_shouldMerge (transcript after_load) (baseEntry 95400 after_load (final_result ''okay''))
   \<and> shouldMerge (lastFinalRef after_load) (baseEntry 95400 after_load (final_result ''okay''))
   \<and> filter isFinal (transcript after_load) \<noteq> []
   \<and> map entry_text (transcript (onresult 95400 0 [final_result ''okay''] after_load))
       = [''see you tomorrow okay'']
   \<and> transcript (onresult 95400 0 [final_result ''okay''] after_load)
       \<noteq> filter isFinal (transcript after_load) @ [baseEntry 95400 after_load (final_result ''okay'')]
   \<and> length (transcript (onresult 95400 0 [final_result ''okay''] after_load))
       \<le> length (transcript after_load)"
proof -
  let ?e = "baseEntry 95400 after_load (final_result ''okay'')"
  have f: "result_isFinal (final_result ''okay'')" by (simp add: final_result_def)
  have t: "transcript after_load = session_transcript stored_session"
    by (simp add: after_load_eval)
  have st: "session_transcript stored_session =
      [\<lparr> entry_text = ''see you tomorrow'', timestamp = 1000, startTime = 0, endTime = 1000,
         entry_confidence = Some 0.9, isFinal = True, speaker = ''User'' \<rparr>]"
    by (simp add: stored_session_def)
  have lf: "last_final (transcript after_load) = Some (hd (session_transcript stored_session))"
    by (simp add: t st last_final_def)
  have ne: "lastFinalRef after_load \<noteq> last_final (transcript after_load)"
    unfolding lf by (simp add: after_load_eval st)
  have gap: "startTime ?e - endTime (hd (session_transcript stored_session)) = 94000"
    unfolding okay_entry by (simp add: st)
  have ns: "\<not> spec_shouldMerge (transcript after_load) ?e"
    unfolding okay_entry by (simp add: spec_shouldMerge_def t st last_final_def)
  have m: "shouldMerge (lastFinalRef after_load) ?e"
    unfolding okay_entry by (simp add: shouldMerge_def after_load_eval)
  have n: "filter isFinal (transcript after_load) \<noteq> []" by (simp add: t st)
  note rule = final_result_reads_reference [where r = "final_result ''okay''" and s = after_load
      and now = 95400, OF f]
  from rule m n have b:
    "transcript (onresult 95400 0 [final_result ''okay''] after_load) =
       butlast (filter isFinal (transcript after_load)) @
       [(last (filter isFinal (transcript after_load)))
          \<lparr> entry_text := merge_text (entry_text (last (filter isFinal (transcript after_load))))
                            (entry_text ?e),
            endTime := endTime ?e,
            timestamp := 95400,
            isFinal := True \<rparr>]"
    and c: "length (transcript (onresult 95400 0 [final_result ''okay''] after_load))
       \<le> length (transcript after_load)"
    by blast+
  have v: "butlast (filter isFinal (transcript after_load)) @
       [(last (filter isFinal (transcript after_load)))
          \<lparr> entry_text := merge_text (entry_text (last (filter isFinal (transcript after_load))))
                            (entry_text ?e),
            endTime := endTime ?e,
            timestamp := 95400,
            isFinal := True \<rparr>]
       = [\<lparr> entry_text = ''see you tomorrow okay'', timestamp = 95400, startTime = 0,
            endTime = 95400, entry_confidence = Some 0.9, isFinal = True, speaker = ''User'' \<rparr>]"
    unfolding okay_entry t by (simp add: st merge_text_okay)
  have d: "map entry_text (transcript (onresult 95400 0 [final_result ''okay''] after_load))
       = [''see you tomorrow okay'']"
    unfolding b v by simp
  have e: "transcript (onresult 95400 0 [final_result ''okay''] after_load)
       \<noteq> filter isFinal (transcript after_load) @ [?e]"
    unfolding b v by (simp add: t st)
  from f ne lf gap ns m n d e c show ?thesis by blast
qed

text \<open>
  When the reference is the most recent final entry of the display, a short fragment is
  merged into it: ``hello'', then ``world'' in a later event.
\<close>

lemma fragment_merged:
  "lastFinalRef after_hello = last_final (transcript after_hello)
   \<and> spec_shouldMerge (transcript after_hello) (baseEntry 95300 after_hello (final_result ''world''))
   \<and> transcript (onresult 95300 0 [final_result ''world''] after_hello) =
       [hello_entry \<lparr> entry_text := ''hello world'', endTime := 95300, timestamp := 95300 \<rparr>]"
  unfolding world_entry
  by (simp add: transcript_single_final final_result_def baseEntry_def shouldMerge_def
      spec_shouldMerge_def last_final_def after_hello_eval listening_eval hello_entry_def
      trim_words merge_text_hello_world)

text \<open>
  A fragment of more than 8 code units is merged when it has at most two words, and
  appended when it has three.
\<close>

lemma word_count_decides:
  "map entry_text (transcript (onresult 95300 0 [final_result ''good  morning ''] after_hello))
     = [''hello good morning'']
   \<and> map entry_text
        (transcript (onresult 95300 0 [final_result ''good morning everyone''] after_hello))
     = [''hello'', ''good morning everyone'']"
  by (simp add: transcript_single_final final_result_def baseEntry_def shouldMerge_def
      after_hello_eval listening_eval hello_entry_def trim_def isSpace_def merge_text_def
      collapse_spaces_def split_spaces_def Let_def)

text \<open>
  The start time of an entry is the time the previous final result was handled (or
  recognition started), not the time its own utterance began: a short fragment is merged
  however late it arrives.
\<close>

lemma late_fragment_merged:
  "map entry_text (transcript (onresult 155000 0 [final_result ''world''] after_hello))
     = [''hello world'']"
  by (simp add: transcript_single_final final_result_def baseEntry_def
      shouldMerge_def after_hello_eval listening_eval hello_entry_def trim_words
      merge_text_hello_world)

text \<open>
  Two results that become final in one event are both decided on the reference as it was
  before the event: ``world'' is appended, where the same two results delivered in two events
  are merged.
\<close>

lemma two_finals_in_one_event:
  "map entry_text (transcript (onresult 95000 0 two_finals listening)) = [''hello'', ''world'']
   \<and> map entry_text (transcript (onresult 95000 1 two_finals (onresult 95000 0 (take 1 two_finals) listening)))
       = [''hello world'']"
  by (simp add: two_finals_def onresult_def process_result_def on_final_def clear_pending_def
      baseEntry_def final_result_def shouldMerge_def append_transcript_def
      merge_transcript_def listening_eval trim_words merge_text_hello_world Let_def
      split_spaces_def)

theorem interim_never_persisted_witness:
  "interim_only_at_tail (transcript listening)
   \<and> sessions_final listening
   \<and> list_all interim_event interim_events
   \<and> currentSession listening = Some (newSession https_granted ''en-US'' 90000)
   \<and> session_transcript (newSession https_granted ''en-US'' 90000) = []
   \<and> currentSession (run_events interim_events listening)
       = Some (newSession https_granted ''en-US'' 90000)
   \<and> storage (run_events interim_events listening) = [stored_session]
   \<and> interim_only_at_tail (transcript (run_events interim_events listening))
   \<and> map entry_text (transcript (run_events interim_events listening)) = [''hell'']"
proof -
  have a: "interim_only_at_tail (transcript listening)"
    by (simp add: listening_eval interim_only_at_tail_def)
  have b: "sessions_final listening"
    by (simp add: listening_eval sessions_final_def session_final_def newSession_def
        stored_session_def)
  have c: "list_all interim_event interim_events"
    by (simp add: interim_events_def interim_result_def)
  have d: "currentSession listening = Some (newSession https_granted ''en-US'' 90000)"
    "storage listening = [stored_session]"
    by (simp_all add: listening_eval)
  have e: "session_transcript (newSession https_granted ''en-US'' 90000) = []"
    by (simp add: newSession_def)
  have f: "map entry_text (transcript (run_events interim_events listening)) = [''hell'']"
    by (simp add: run_events_def interim_events_def onresult_def process_result_def
        on_interim_def baseEntry_def interim_result_def fire_timer_def interim_timeout_def
        clearTimeout_def listening_eval trim_words Let_def)
  from interim_never_persisted [OF a b, of interim_events] a b c d e f
  show ?thesis by simp
qed

lemma quick_interims_hyps:
  "\<forall>ev \<in> set quick_interims. fst ev < fst (hd quick_interims) + 120
     \<and> drop (fst (snd ev)) (snd (snd ev)) \<noteq> []
     \<and> list_all (\<lambda>r. \<not> result_isFinal r) (drop (fst (snd ev)) (snd (snd ev)))"
  by (simp add: quick_interims_def interim_result_def)

theorem interim_run_throttled_witness:
  "timers after_hello = [] \<and> interimTimerRef after_hello = None
   \<and> quick_interims \<noteq> [] \<and> sorted (map fst quick_interims)
   \<and> fst (hd quick_interims) + 120 \<le> 95220
   \<and> map (map entry_text) (snd (fire_due 95220 (run_timed quick_interims (after_hello, []))))
       = [[''hello'', ''world'']]
   \<and> map entry_text (transcript (fst (fire_due 95220 (run_timed quick_interims (after_hello, [])))))
       = [''hello'', ''world'']
   \<and> transcript (fst (run_timed (take 2 quick_interims) (after_hello, []))) = [hello_entry]
   \<and> snd (run_timed quick_interims (after_hello, [])) = []
   \<and> timers (fst (run_timed quick_interims (after_hello, []))) = [(1, 95220)]"
proof -
  let ?e = "baseEntry (fst (last quick_interims)) after_hello
             (last (drop (fst (snd (last quick_interims))) (snd (snd (last quick_interims)))))"
  have a: "timers after_hello = []" "interimTimerRef after_hello = None"
    by (simp_all add: after_hello_eval listening_eval)
  have b: "quick_interims \<noteq> []" "sorted (map fst quick_interims)"
    "fst (hd quick_interims) + 120 \<le> 95220"
    by (simp_all add: quick_interims_def)
  have n: "nextTimer after_hello = 1" "fst (hd quick_interims) + 120 = 95220"
    "transcript after_hello = [hello_entry]"
    by (simp_all add: after_hello_eval listening_eval quick_interims_def)
  have fs: "filter isFinal (transcript after_hello) = [hello_entry]"
    by (simp add: n(3) hello_entry_def)
  have l: "entry_text ?e = ''world''"
    by (simp add: quick_interims_def baseEntry_def interim_result_def trim_words)
  have h: "entry_text hello_entry = ''hello''" by (simp add: hello_entry_def)
  have k: "take (length quick_interims) quick_interims = quick_interims" by simp
  note rule = interim_run_throttled [OF a b(1) b(2) quick_interims_hyps b(3)]
  from rule have p: "snd (fire_due 95220 (run_timed quick_interims (after_hello, []))) =
           [filter isFinal (transcript after_hello) @ [?e]]"
    and q: "transcript (fst (fire_due 95220 (run_timed quick_interims (after_hello, [])))) =
           filter isFinal (transcript after_hello) @ [?e]"
    and u: "\<forall>n. transcript (fst (run_timed (take n quick_interims) (after_hello, [])))
                  = transcript after_hello
              \<and> snd (run_timed (take n quick_interims) (after_hello, [])) = []"
    and t: "timers (fst (run_timed quick_interims (after_hello, [])))
             = [(nextTimer after_hello, fst (hd quick_interims) + 120)]"
    by blast+
  have p': "map (map entry_text) (snd (fire_due 95220 (run_timed quick_interims (after_hello, []))))
       = [[''hello'', ''world'']]"
    unfolding p fs using l h by simp
  have q': "map entry_text (transcript (fst (fire_due 95220 (run_timed quick_interims (after_hello, [])))))
       = [''hello'', ''world'']"
    unfolding q fs using l h by simp
  from u have u2: "transcript (fst (run_timed (take 2 quick_interims) (after_hello, [])))
       = [hello_entry]"
    unfolding n(3) by blast
  from u have "snd (run_timed (take (length quick_interims) quick_interims) (after_hello, [])) = []"
    by blast
  then have u3: "snd (run_timed quick_interims (after_hello, [])) = []" unfolding k .
  from a b p' q' u2 u3 t [unfolded n] show ?thesis by blast
qed

text \<open>
  Three interim results, each 100 ms after the one before: the display changes twice, and
  the time-out set by the first is still due at 120 after the second.
\<close>

theorem interim_run_two_updates:
  "map (map entry_text) (snd (fire_due 1000 (run_timed three_interims (initial_hook [], []))))
     = [[''hell''], [''hello'']]
   \<and> timers (fst (run_timed (take 2 three_interims) (initial_hook [], []))) = [(1, 120)]"
  by (simp add: three_interims_def fire_due_def onresult_def process_result_def
      on_interim_def baseEntry_def interim_result_def interim_timeout_def clearTimeout_def
      initial_hook_def trim_words Let_def)

subsection \<open>startListening\<close>

text \<open>
  C4 (as amended). A recognition object exists exactly when the context is secure, the
  browser has the recognition interface and constructing it succeeds. \<open>startListening\<close>
  without a recognition object, in an insecure context or with the microphone permission
  denied only sets an error: the active session and the live view stay as they were. When
  those checks pass and recognition starts, it creates a session whose id is \<open>session_\<close>
  followed by the current time and whose name is \<open>Meeting\<close> followed by the local rendering
  of the current time, with an empty transcript, and empties the live view and the error;
  the interim buffer, the time-out and the last-final reference are left as they were.
\<close>

theorem startListening_rule:
  "(recognitionRef (run_effect b (initial_hook store))
      \<longleftrightarrow> isSecureContext b \<and> hasSpeechRecognition b \<and> \<not> constructorThrows b)
   \<and> (\<not> recognitionRef s \<or> (\<not> isListening s \<and> (\<not> secure env \<or> microphone env = Denied)) \<longrightarrow>
        currentSession (startListening env lang now s) = currentSession s
        \<and> transcript (startListening env lang now s) = transcript s
        \<and> isListening (startListening env lang now s) = isListening s
        \<and> error (startListening env lang now s) \<noteq> None)
   \<and> (recognitionRef s \<and> \<not> isListening s \<and> secure env \<and> microphone env \<noteq> Denied
        \<and> start_call env \<noteq> OtherStartError \<longrightarrow>
        currentSession (startListening env lang now s) =
          Some \<lparr> session_id = ''session_'' @ show_int now,
                 session_name = ''Meeting '' @ toLocaleString env now,
                 session_startTime = now, session_endTime = now,
                 session_transcript = [], language = lang \<rparr>
        \<and> transcript (startListening env lang now s) = []
        \<and> error (startListening env lang now s) = None
        \<and> pendingInterimRef (startListening env lang now s) = pendingInterimRef s
        \<and> interimTimerRef (startListening env lang now s) = interimTimerRef s
        \<and> timers (startListening env lang now s) = timers s
        \<and> lastFinalRef (startListening env lang now s) = lastFinalRef s)"
proof -
  have 1: "recognitionRef (run_effect b (initial_hook store))
      \<longleftrightarrow> isSecureContext b \<and> hasSpeechRecognition b \<and> \<not> constructorThrows b"
    by (simp add: run_effect_def load_sessions_def initial_hook_def)
  have 2: "\<not> recognitionRef s \<or> (\<not> isListening s \<and> (\<not> secure env \<or> microphone env = Denied)) \<longrightarrow>
        currentSession (startListening env lang now s) = currentSession s
        \<and> transcript (startListening env lang now s) = transcript s
        \<and> isListening (startListening env lang now s) = isListening s
        \<and> error (startListening env lang now s) \<noteq> None"
    by (auto simp: startListening_def)
  have 3: "recognitionRef s \<and> \<not> isListening s \<and> secure env \<and> microphone env \<noteq> Denied
        \<and> start_call env \<noteq> OtherStartError \<longrightarrow>
        currentSession (startListening env lang now s) =
          Some \<lparr> session_id = ''session_'' @ show_int now,
                 session_name = ''Meeting '' @ toLocaleString env now,
                 session_startTime = now, session_endTime = now,
                 session_transcript = [], language = lang \<rparr>
        \<and> transcript (startListening env lang now s) = []
        \<and> error (startListening env lang now s) = None
        \<and> pendingInterimRef (startListening env lang now s) = pendingInterimRef s
        \<and> interimTimerRef (startListening env lang now s) = interimTimerRef s
        \<and> timers (startListening env lang now s) = timers s
        \<and> lastFinalRef (startListening env lang now s) = lastFinalRef s"
    by (cases "start_call env") (simp_all add: startListening_def newSession_def Let_def)
  from 1 2 3 show ?thesis by blast
qed

lemma stopped_eval:
  "recognitionRef (recognition_onend after_hello) \<and> \<not> isListening (recognition_onend after_hello)
   \<and> lastFinalRef (recognition_onend after_hello) = Some hello_entry
   \<and> transcript (recognition_onend after_hello) = [hello_entry]"
  by (simp add: recognition_onend_def after_hello_eval listening_eval)

theorem startListening_rule_witness:
  "recognitionRef (run_effect chrome (initial_hook []))
   \<and> \<not> recognitionRef (initial_hook [])
   \<and> currentSession (startListening https_granted ''en-US'' 96000 (initial_hook [])) = None
   \<and> error (startListening https_granted ''en-US'' 96000 (initial_hook [])) \<noteq> None
   \<and> recognitionRef (recognition_onend after_hello)
   \<and> \<not> isListening (recognition_onend after_hello)
   \<and> secure https_granted \<and> microphone https_granted \<noteq> Denied
   \<and> start_call https_granted \<noteq> OtherStartError
   \<and> currentSession restarted =
        Some \<lparr> session_id = ''session_'' @ show_int 96000,
               session_name = ''Meeting '' @ show_int 96000,
               session_startTime = 96000, session_endTime = 96000,
               session_transcript = [], language = ''en-US'' \<rparr>
   \<and> transcript restarted = []"
proof -
  have c: "isSecureContext chrome \<and> hasSpeechRecognition chrome \<and> \<not> constructorThrows chrome"
    by (simp add: chrome_def)
  have i: "\<not> recognitionRef (initial_hook [])" "currentSession (initial_hook []) = None"
    by (simp_all add: initial_hook_def)
  have g: "secure https_granted" "microphone https_granted \<noteq> Denied"
    "start_call https_granted \<noteq> OtherStartError" "toLocaleString https_granted = show_int"
    by (simp_all add: https_granted_def)
  note r1 = startListening_rule [where b = chrome and store = "[]" and s = "initial_hook []"
      and env = https_granted and lang = "''en-US''" and now = 96000]
  note r2 = startListening_rule [where b = chrome and store = "[]"
      and s = "recognition_onend after_hello"
      and env = https_granted and lang = "''en-US''" and now = 96000]
  from r1 c have 1: "recognitionRef (run_effect chrome (initial_hook []))" by blast
  from r1 i have 2: "currentSession (startListening https_granted ''en-US'' 96000 (initial_hook [])) = None"
    "error (startListening https_granted ''en-US'' 96000 (initial_hook [])) \<noteq> None"
    by simp_all
  from r2 stopped_eval g have 3: "currentSession restarted =
        Some \<lparr> session_id = ''session_'' @ show_int 96000,
               session_name = ''Meeting '' @ show_int 96000,
               session_startTime = 96000, session_endTime = 96000,
               session_transcript = [], language = ''en-US'' \<rparr>"
    "transcript restarted = []"
    by (simp_all add: restarted_def)
  from 1 2 3 i(1) g(1-3) stopped_eval show ?thesis by blast
qed

theorem startListening_keeps_last_final:
  "currentSession restarted = Some (newSession https_granted ''en-US'' 96000)
   \<and> transcript restarted = []
   \<and> lastFinalRef restarted = Some hello_entry
   \<and> lastFinalRef restarted \<noteq> None"
  by (simp add: restarted_def startListening_def recognition_onend_def after_hello_eval
      listening_eval https_granted_def Let_def)

section \<open>Properties of the enhancement hook\<close>

lemma join_lines_Cons:
  "join_lines (x # xs) = (if xs = [] then x else x @ [CHR 0x0A] @ join_lines xs)"
  by (cases xs) simp_all

lemma transcriptText_spec: "transcriptText es = spec_payload es"
proof (induction es)
  case Nil
  then show ?case by (simp add: transcriptText_def)
next
  case (Cons e es)
  have "list_ex isFinal es \<longleftrightarrow> filter isFinal es \<noteq> []"
    by (simp add: list_ex_iff filter_empty_conv)
  with Cons show ?case
    by (simp add: transcriptText_def join_lines_Cons)
qed

text \<open>
  C5 (as amended). \<open>generateSummary\<close> and \<open>extractActionItems\<close> fail, without a remote
  call and without a change of state, when there is no active session or the enhanced
  transcript has no entry at all. Otherwise they make exactly one remote call, whose
  payload is the best available text of the final entries (the enhanced text when it is
  present and not empty, the original text otherwise), in order, joined by newlines; when
  no entry is final that payload is the empty string.
\<close>

theorem summary_payload_rule:
  "(currentNimSession s = None \<or> enhancedTranscript s = [] \<longrightarrow>
      generateSummary api s = (Inl ''No transcript available for summary'', s, [])
      \<and> extractActionItems api' s
          = (Inl ''No transcript available for action item extraction'', s, []))
   \<and> (currentNimSession s \<noteq> None \<and> enhancedTranscript s \<noteq> [] \<longrightarrow>
      snd (snd (generateSummary api s))
        = [Summarize (spec_payload (enhancedTranscript s)) ''summary'']
      \<and> snd (snd (extractActionItems api' s))
        = [Summarize (spec_payload (enhancedTranscript s)) ''action-items''])
   \<and> (filter isFinal (enhancedTranscript s) = [] \<longrightarrow> spec_payload (enhancedTranscript s) = [])"
proof -
  have 1: "currentNimSession s = None \<or> enhancedTranscript s = [] \<longrightarrow>
      generateSummary api s = (Inl ''No transcript available for summary'', s, [])
      \<and> extractActionItems api' s
          = (Inl ''No transcript available for action item extraction'', s, [])"
    by (auto simp: generateSummary_def extractActionItems_def)
  have 2: "currentNimSession s \<noteq> None \<and> enhancedTranscript s \<noteq> [] \<longrightarrow>
      snd (snd (generateSummary api s))
        = [Summarize (spec_payload (enhancedTranscript s)) ''summary'']
      \<and> snd (snd (extractActionItems api' s))
        = [Summarize (spec_payload (enhancedTranscript s)) ''action-items'']"
    by (auto simp: generateSummary_def extractActionItems_def Let_def transcriptText_spec
        split: sum.splits)
  have 3: "filter isFinal (enhancedTranscript s) = [] \<longrightarrow> spec_payload (enhancedTranscript s) = []"
  proof
    assume a: "filter isFinal (enhancedTranscript s) = []"
    have "spec_payload (enhancedTranscript s) = transcriptText (enhancedTranscript s)"
      by (simp add: transcriptText_spec)
    also have "\<dots> = []" using a by (simp add: transcriptText_def)
    finally show "spec_payload (enhancedTranscript s) = []" .
  qed
  from 1 2 3 show ?thesis by blast
qed

theorem summary_payload_rule_witness:
  "enhancedTranscript (nim_with []) = []
   \<and> generateSummary echo_api (nim_with [])
       = (Inl ''No transcript available for summary'', nim_with [], [])
   \<and> currentNimSession (nim_with [spoken ''hello'' True, spoken ''wor'' False, spoken ''bye'' True]) \<noteq> None
   \<and> enhancedTranscript (nim_with [spoken ''hello'' True, spoken ''wor'' False, spoken ''bye'' True]) \<noteq> []
   \<and> snd (snd (generateSummary echo_api
        (nim_with [spoken ''hello'' True, spoken ''wor'' False, spoken ''bye'' True])))
       = [Summarize (''hello'' @ [CHR 0x0A] @ ''bye'') ''summary'']
   \<and> snd (snd (extractActionItems list_api
        (nim_with [spoken ''hello'' True, spoken ''wor'' False, spoken ''bye'' True])))
       = [Summarize (''hello'' @ [CHR 0x0A] @ ''bye'') ''action-items'']"
proof -
  let ?s = "nim_with [spoken ''hello'' True, spoken ''wor'' False, spoken ''bye'' True]"
  have e: "enhancedTranscript (nim_with []) = []" by (simp add: nim_with_def)
  have n: "currentNimSession ?s \<noteq> None" "enhancedTranscript ?s \<noteq> []"
    by (simp_all add: nim_with_def)
  have p: "spec_payload (enhancedTranscript ?s) = ''hello'' @ [CHR 0x0A] @ ''bye''"
    by (simp add: nim_with_def convertToEnhanced_def spoken_def best_text_def)
  from summary_payload_rule [of "nim_with []" echo_api list_api] e
  have 1: "generateSummary echo_api (nim_with [])
       = (Inl ''No transcript available for summary'', nim_with [], [])"
    by blast
  from summary_payload_rule [of ?s echo_api list_api] n
  have 2: "snd (snd (generateSummary echo_api ?s))
        = [Summarize (spec_payload (enhancedTranscript ?s)) ''summary'']"
    "snd (snd (extractActionItems list_api ?s))
        = [Summarize (spec_payload (enhancedTranscript ?s)) ''action-items'']"
    by blast+
  from e 1 n 2 [unfolded p] show ?thesis by blast
qed

theorem summary_of_interim_only_calls:
  "filter isFinal (enhancedTranscript (nim_with [spoken ''hel'' False])) = []
   \<and> generateSummary echo_api (nim_with [spoken ''hel'' False])
       = (Inr (),
          (nim_with [spoken ''hel'' False])
            \<lparr> currentNimSession := Some \<lparr> nim_session_name = ''Meeting 1'', summary = Some ''ok'',
                 actionItems = None, nimProcessed = True \<rparr> \<rparr>,
          [Summarize [] ''summary''])"
  by (simp add: generateSummary_def nim_with_def convertToEnhanced_def spoken_def
      transcriptText_def echo_api_def Let_def)

subsection \<open>A failed enhancement\<close>

lemma entry_id_status [simp]: "entry_id (e \<lparr> processingStatus := st \<rparr>) = entry_id e"
  by (simp add: entry_id_def)

lemma set_status_ids [simp]: "map entry_id (set_status i st es) = map entry_id es"
  by (induction es) (simp_all add: set_status_def)

lemma set_status_twice [simp]: "set_status i st (set_status i st' es) = set_status i st es"
  by (induction es) (simp_all add: set_status_def)

lemma set_status_all:
  assumes "e \<in> set (set_status i st es)" and "entry_id e = i"
  shows "processingStatus e = st"
proof -
  from assms(1) obtain x where e: "e = (if entry_id x = i then x \<lparr> processingStatus := st \<rparr> else x)"
    unfolding set_status_def set_map by (rule imageE)
  show ?thesis
  proof (cases "entry_id x = i")
    case True
    with e show ?thesis by simp
  next
    case False
    with e assms(2) show ?thesis by simp
  qed
qed

lemma set_status_member:
  "find (\<lambda>e. entry_id e = i) es = Some entry \<Longrightarrow> \<exists>e \<in> set (set_status i st es). entry_id e = i"
  by (induction es) (simp_all add: set_status_def split: if_splits)

lemma eligible_cong:
  "processedEntries s' = processedEntries s \<Longrightarrow> nimSettings s' = nimSettings s \<Longrightarrow>
   eligible s' = eligible s"
  by (simp add: eligible_def fun_eq_iff split: option.splits)

lemma enhanceCaption_failure:
  assumes "entryId \<notin> set (nimProcessingQueue s)"
    and "find (\<lambda>e. entry_id e = entryId) (enhancedTranscript s) = Some entry"
    and "api (enhance_request s entry) = Inl err"
  shows "enhanceCaption api entryId s =
     (s \<lparr> nimProcessingQueue := filter (\<lambda>i. i \<noteq> entryId) (nimProcessingQueue s @ [entryId]),
          isProcessingNim := (length (nimProcessingQueue s) > 1),
          enhancedTranscript := set_status entryId Error (enhancedTranscript s) \<rparr>,
      [enhance_request s entry])"
  using assms by (simp add: enhanceCaption_def finish_enhance_def Let_def)

text \<open>
  C6 (as amended). When the remote call for an entry fails, \<open>enhanceCaption\<close> has made
  exactly one remote call, the entry's status is \<open>error\<close>, and the processed-id set is as
  it was: an id enters that set only when the call succeeds. The effect that follows the
  transcript therefore selects the same ids after the failure as before it.
\<close>

theorem enhance_failure_rule:
  assumes "entryId \<notin> set (nimProcessingQueue s)"
    and "find (\<lambda>e. entry_id e = entryId) (enhancedTranscript s) = Some entry"
    and "api (enhance_request s entry) = Inl err"
  shows "snd (enhanceCaption api entryId s) = [enhance_request s entry]
       \<and> (\<exists>e \<in> set (enhancedTranscript (fst (enhanceCaption api entryId s))).
             entry_id e = entryId)
       \<and> (\<forall>e \<in> set (enhancedTranscript (fst (enhanceCaption api entryId s))).
             entry_id e = entryId \<longrightarrow> processingStatus e = Error)
       \<and> processedEntries (fst (enhanceCaption api entryId s)) = processedEntries s
       \<and> entryId \<notin> set (nimProcessingQueue (fst (enhanceCaption api entryId s)))
       \<and> snd (enhancement_effect original (fst (enhanceCaption api entryId s)))
           = snd (enhancement_effect original s)"
proof -
  note r = enhanceCaption_failure [where api = api and s = s and entry = entry
      and entryId = entryId and err = err, OF assms]
  have 1: "snd (enhanceCaption api entryId s) = [enhance_request s entry]" by (simp add: r)
  have 2: "\<exists>e \<in> set (enhancedTranscript (fst (enhanceCaption api entryId s))). entry_id e = entryId"
    using set_status_member [OF assms(2), of Error] by (simp add: r)
  have 3: "\<forall>e \<in> set (enhancedTranscript (fst (enhanceCaption api entryId s))).
             entry_id e = entryId \<longrightarrow> processingStatus e = Error"
    using set_status_all [of _ entryId Error "enhancedTranscript s"] by (simp add: r)
  have 4: "processedEntries (fst (enhanceCaption api entryId s)) = processedEntries s"
    by (simp add: r)
  have 5: "entryId \<notin> set (nimProcessingQueue (fst (enhanceCaption api entryId s)))"
    by (simp add: r)
  have 6: "snd (enhancement_effect original (fst (enhanceCaption api entryId s)))
           = snd (enhancement_effect original s)"
  proof -
    have "eligible (fst (enhanceCaption api entryId s)) = eligible s"
      by (rule eligible_cong) (simp_all add: r)
    moreover have "nimSettings (fst (enhanceCaption api entryId s)) = nimSettings s"
      by (simp add: r)
    ultimately show ?thesis by (simp add: enhancement_effect_def Let_def)
  qed
  from 1 2 3 4 5 6 show ?thesis by blast
qed

lemma hello_found:
  "find (\<lambda>e. entry_id e = hello_id) (enhancedTranscript (nim_with [hello_there]))
     = Some (convertToEnhanced hello_there)"
  by (simp add: nim_with_def hello_id_def)

lemma hello_selected: "snd (enhancement_effect [hello_there] (nim_with [hello_there])) = [hello_id]"
  by (simp add: enhancement_effect_def eligible_def nim_with_def default_settings_def
      hello_id_def hello_there_def spoken_def convertToEnhanced_def Let_def)

theorem enhance_failure_rule_witness:
  "hello_id \<notin> set (nimProcessingQueue (nim_with [hello_there]))
   \<and> find (\<lambda>e. entry_id e = hello_id) (enhancedTranscript (nim_with [hello_there]))
       = Some (convertToEnhanced hello_there)
   \<and> failing_api (enhance_request (nim_with [hello_there]) (convertToEnhanced hello_there))
       = Inl ''API call failed: 500''
   \<and> snd (enhanceCaption failing_api hello_id (nim_with [hello_there]))
       = [EnhanceCaptions ''hello there'' ''Meeting context: Meeting 1'' []]
   \<and> map processingStatus
        (enhancedTranscript (fst (enhanceCaption failing_api hello_id (nim_with [hello_there]))))
       = [Error]
   \<and> processedEntries (fst (enhanceCaption failing_api hello_id (nim_with [hello_there]))) = {}
   \<and> snd (enhancement_effect [hello_there]
             (fst (enhanceCaption failing_api hello_id (nim_with [hello_there])))) = [hello_id]"
proof -
  let ?s = "nim_with [hello_there]"
  have a: "hello_id \<notin> set (nimProcessingQueue ?s)" by (simp add: nim_with_def)
  have c: "failing_api (enhance_request ?s (convertToEnhanced hello_there))
       = Inl ''API call failed: 500''" by (simp add: failing_api_def)
  note rule = enhance_failure_rule [where api = failing_api and s = ?s
      and entry = "convertToEnhanced hello_there" and entryId = hello_id
      and err = "''API call failed: 500''" and original = "[hello_there]", OF a hello_found c]
  have q: "enhance_request ?s (convertToEnhanced hello_there)
       = EnhanceCaptions ''hello there'' ''Meeting context: Meeting 1'' []"
    by (simp add: enhance_request_def enhance_context_def nim_with_def default_settings_def
        convertToEnhanced_def hello_there_def spoken_def slice_last_def)
  have et: "enhancedTranscript ?s = [convertToEnhanced hello_there]" by (simp add: nim_with_def)
  have et: "enhancedTranscript ?s = [convertToEnhanced hello_there]" by (simp add: nim_with_def)
  note fl = enhanceCaption_failure [where api = failing_api and s = ?s
        and entry = "convertToEnhanced hello_there" and entryId = hello_id
        and err = "''API call failed: 500''", OF a hello_found c]
  have "enhancedTranscript (fst (enhanceCaption failing_api hello_id ?s))
          = set_status hello_id Error [convertToEnhanced hello_there]"
    by (simp add: fl et)
  also have "\<dots> = [(convertToEnhanced hello_there) \<lparr> processingStatus := Error \<rparr>]"
    by (simp add: set_status_def hello_id_def)
  finally have st: "map processingStatus
        (enhancedTranscript (fst (enhanceCaption failing_api hello_id ?s))) = [Error]"
    by simp
  have p: "processedEntries ?s = {}" by (simp add: nim_with_def)
  from rule have 1: "snd (enhanceCaption failing_api hello_id ?s)
        = [enhance_request ?s (convertToEnhanced hello_there)]"
    and 4: "processedEntries (fst (enhanceCaption failing_api hello_id ?s)) = processedEntries ?s"
    and 6: "snd (enhancement_effect [hello_there] (fst (enhanceCaption failing_api hello_id ?s)))
           = snd (enhancement_effect [hello_there] ?s)"
    by blast+
  from a hello_found c 1 [unfolded q] st 4 [unfolded p] 6 [unfolded hello_selected]
  show ?thesis by blast
qed

theorem failed_entry_submitted_again:
  "hello_id \<notin> processedEntries (fst (enhanceCaption failing_api hello_id (nim_with [hello_there])))
   \<and> snd (enhancement_effect [hello_there]
        (fst (enhanceCaption failing_api hello_id (nim_with [hello_there])))) = [hello_id]
   \<and> snd (enhanceCaption failing_api hello_id
        (fst (enhancement_effect [hello_there]
           (fst (enhanceCaption failing_api hello_id (nim_with [hello_there]))))))
       = [EnhanceCaptions ''hello there'' ''Meeting context: Meeting 1'' []]"
proof -
  let ?s = "nim_with [hello_there]"
  have a: "hello_id \<notin> set (nimProcessingQueue ?s)" by (simp add: nim_with_def)
  have c: "failing_api r = Inl ''API call failed: 500''" for r by (simp add: failing_api_def)
  note f = enhanceCaption_failure [where api = failing_api and s = ?s
      and entry = "convertToEnhanced hello_there" and entryId = hello_id
      and err = "''API call failed: 500''", OF a hello_found c]
  have p: "processedEntries ?s = {}" "nimSettings ?s = default_settings"
    "nimProcessingQueue ?s = []" "contextCache ?s = []"
    "currentNimSession ?s = Some \<lparr> nim_session_name = ''Meeting 1'', summary = None,
       actionItems = None, nimProcessed = False \<rparr>"
    by (simp_all add: nim_with_def)
  have p: "processedEntries ?s = {}" "nimSettings ?s = default_settings"
    "nimProcessingQueue ?s = []" "contextCache ?s = []"
    "currentNimSession ?s = Some \<lparr> nim_session_name = ''Meeting 1'', summary = None,
       actionItems = None, nimProcessed = False \<rparr>"
    by (simp_all add: nim_with_def)
  let ?s1 = "fst (enhanceCaption failing_api hello_id ?s)"
  have s1: "processedEntries ?s1 = {}" "nimSettings ?s1 = default_settings"
    "nimProcessingQueue ?s1 = []" "contextCache ?s1 = []"
    "currentNimSession ?s1 = Some \<lparr> nim_session_name = ''Meeting 1'', summary = None,
       actionItems = None, nimProcessed = False \<rparr>"
    by (simp_all add: f p)
  have 1: "hello_id \<notin> processedEntries ?s1" by (simp add: s1)
  have el: "eligible ?s1 = eligible ?s"
    by (rule eligible_cong) (simp_all add: s1 p)
  have "snd (enhancement_effect [hello_there] ?s1) = snd (enhancement_effect [hello_there] ?s)"
    by (simp add: enhancement_effect_def Let_def el s1 p)
  then have 2: "snd (enhancement_effect [hello_there] ?s1) = [hello_id]"
    by (simp only: hello_selected)
  let ?s2 = "fst (enhancement_effect [hello_there] ?s1)"
  have s2: "nimProcessingQueue ?s2 = []" "nimSettings ?s2 = default_settings"
    "contextCache ?s2 = []"
    "currentNimSession ?s2 = Some \<lparr> nim_session_name = ''Meeting 1'', summary = None,
       actionItems = None, nimProcessed = False \<rparr>"
    "enhancedTranscript ?s2 = [convertToEnhanced hello_there]"
    by (simp_all add: enhancement_effect_def Let_def s1)
  have a2: "hello_id \<notin> set (nimProcessingQueue ?s2)" by (simp add: s2)
  have h2: "find (\<lambda>e. entry_id e = hello_id) (enhancedTranscript ?s2)
     = Some (convertToEnhanced hello_there)"
    unfolding s2(5) by (simp add: hello_id_def)
  have q: "enhance_request ?s2 (convertToEnhanced hello_there)
       = EnhanceCaptions ''hello there'' ''Meeting context: Meeting 1'' []"
    unfolding enhance_request_def enhance_context_def s2
    by (simp add: default_settings_def convertToEnhanced_def hello_there_def spoken_def
        slice_last_def)
  have 3: "snd (enhanceCaption failing_api hello_id ?s2)
       = [EnhanceCaptions ''hello there'' ''Meeting context: Meeting 1'' []]"
    using enhanceCaption_failure [where api = failing_api and s = ?s2
        and entry = "convertToEnhanced hello_there" and entryId = hello_id
        and err = "''API call failed: 500''", OF a2 h2 c] q by simp
  from 1 2 3 show ?thesis by blast
qed

end
